theory Spec2Isabelle
  imports Complex_Main
begin

section \<open>Data model (src/src/App.tsx, lines 25-42)\<close>

text \<open>
  \<^verbatim>\<open>interface GeneratedPage { id: number; base64: string; prompt: string; }\<close>
  The field \<^verbatim>\<open>id\<close> is written \<open>id'\<close> since \<open>id\<close> is the identity function of HOL.
\<close>

record GeneratedPage =
  id' :: nat
  base64 :: string
  prompt :: string

definition MODEL_NAME :: string where
  "MODEL_NAME = ''gemini-2.5-flash-image''"

section \<open>The image service at its interface\<close>

text \<open>
  The argument of \<^verbatim>\<open>ai.models.generateContent\<close> as \<open>generateSinglePage\<close> builds it:
  the model, the text of the only content part and the aspect ratio.
\<close>

record GenerateContentRequest =
  req_model :: string
  req_text :: string
  req_aspectRatio :: string

text \<open>
  The response as far as the code reads it:
  \<^verbatim>\<open>response.candidates?.[0]?.content?.parts\<close>, and of each part \<^verbatim>\<open>inlineData\<close> and
  \<^verbatim>\<open>inlineData.data\<close>. Every level may be absent (\<open>None\<close> is \<^verbatim>\<open>undefined\<close>).
\<close>

record Blob =
  mimeType :: "string option"
  data :: "string option"

record Part =
  part_text :: "string option"
  inlineData :: "Blob option"

record Content =
  parts :: "Part list option"

record Candidate =
  content :: "Content option"

record GenerateContentResponse =
  candidates :: "Candidate list option"

text \<open>
  What a \<^verbatim>\<open>throw\<close> carries: a rejection of the service call (opaque to the program), or
  the \<^verbatim>\<open>new Error(message)\<close> of the program itself.
\<close>

datatype exn = ApiError string | Error string

type_synonym service = "GenerateContentRequest \<Rightarrow> exn + GenerateContentResponse"

section \<open>JavaScript numbers\<close>

text \<open>
  A number is an IEEE 754 double: a finite double, given by its value, an infinity, or
  \<^verbatim>\<open>NaN\<close>. The sign of a zero is not modelled.
\<close>

datatype number = Num rat | PosInfinity | NegInfinity | NaN

text \<open>
  \<open>flog2 y\<close> counts the halvings that bring \<open>y \<ge> 1\<close> below 2; \<open>log2floor x\<close> is the
  exponent \<open>e\<close> with \<open>2\<^sup>e \<le> x < 2\<^sup>e\<^sup>+\<^sup>1\<close> of a positive \<open>x\<close> (lemma \<open>log2floor_bounds\<close>).
\<close>

function flog2 :: "rat \<Rightarrow> nat" where
  "flog2 y = (if y < 2 then 0 else Suc (flog2 (y / 2)))"
  by pat_completeness auto
termination
proof (relation "measure (\<lambda>y. nat \<lfloor>y\<rfloor>)")
  show "wf (measure (\<lambda>y::rat. nat \<lfloor>y\<rfloor>))" by simp
next
  fix y :: rat
  assume "\<not> y < 2"
  then have "y / 2 \<le> y - 1" by simp
  then have "\<lfloor>y / 2\<rfloor> \<le> \<lfloor>y - 1\<rfloor>" by (rule floor_mono)
  then have less: "\<lfloor>y / 2\<rfloor> < \<lfloor>y\<rfloor>" by simp
  from \<open>\<not> y < 2\<close> have "2 \<le> \<lfloor>y\<rfloor>" by (simp add: le_floor_iff)
  with less show "(y / 2, y) \<in> measure (\<lambda>y. nat \<lfloor>y\<rfloor>)" by simp
qed

declare flog2.simps [simp del]

definition log2floor :: "rat \<Rightarrow> int" where
  "log2floor x =
     (if 1 \<le> x then int (flog2 x)
      else (let c = int (flog2 (1 / x))
            in if x = 2 powi (- c) then - c else - c - 1))"

text \<open>Rounding to the nearest integer, a tie going to the even one.\<close>

definition roundHalfEven :: "rat \<Rightarrow> int" where
  "roundHalfEven y =
     (let f = \<lfloor>y\<rfloor>; r = y - of_int f
      in if r < 1 / 2 then f
         else if 1 / 2 < r then f + 1
         else if even f then f else f + 1)"

text \<open>
  The double nearest to a rational, ties to even: 53 significant bits, the spacing of the
  doubles never below \<open>2\<^sup>-\<^sup>1\<^sup>0\<^sup>7\<^sup>4\<close> (the subnormal range), and an infinity when the rounded
  value reaches \<open>2\<^sup>1\<^sup>0\<^sup>2\<^sup>4\<close>.
\<close>

definition roundToDouble :: "rat \<Rightarrow> number" where
  "roundToDouble x =
     (if x = 0 then Num 0
      else (let a = \<bar>x\<bar>;
                e = log2floor a;
                ulp = 2 powi (max (e - 52) (- 1074));
                r = of_int (roundHalfEven (a / ulp)) * ulp
            in if 2 powi 1024 \<le> r then (if 0 < x then PosInfinity else NegInfinity)
               else Num (sgn x * r)))"

text \<open>
  The operators \<^verbatim>\<open>/\<close> and \<^verbatim>\<open>*\<close> on numbers: the exact result rounded to a double, with
  the results IEEE 754 gives for zero divisors, infinities and \<^verbatim>\<open>NaN\<close>.
\<close>

fun jsDivide :: "number \<Rightarrow> number \<Rightarrow> number" where
  "jsDivide NaN _ = NaN"
| "jsDivide _ NaN = NaN"
| "jsDivide (Num a) (Num b) =
     (if b = 0 then (if a = 0 then NaN else if 0 < a then PosInfinity else NegInfinity)
      else roundToDouble (a / b))"
| "jsDivide (Num a) _ = Num 0"
| "jsDivide PosInfinity (Num b) = (if 0 \<le> b then PosInfinity else NegInfinity)"
| "jsDivide NegInfinity (Num b) = (if 0 \<le> b then NegInfinity else PosInfinity)"
| "jsDivide _ _ = NaN"

fun jsMultiply :: "number \<Rightarrow> number \<Rightarrow> number" where
  "jsMultiply NaN _ = NaN"
| "jsMultiply _ NaN = NaN"
| "jsMultiply (Num a) (Num b) = roundToDouble (a * b)"
| "jsMultiply (Num a) PosInfinity =
     (if a = 0 then NaN else if 0 < a then PosInfinity else NegInfinity)"
| "jsMultiply (Num a) NegInfinity =
     (if a = 0 then NaN else if 0 < a then NegInfinity else PosInfinity)"
| "jsMultiply PosInfinity (Num b) =
     (if b = 0 then NaN else if 0 < b then PosInfinity else NegInfinity)"
| "jsMultiply NegInfinity (Num b) =
     (if b = 0 then NaN else if 0 < b then NegInfinity else PosInfinity)"
| "jsMultiply PosInfinity PosInfinity = PosInfinity"
| "jsMultiply PosInfinity NegInfinity = NegInfinity"
| "jsMultiply NegInfinity PosInfinity = NegInfinity"
| "jsMultiply NegInfinity NegInfinity = PosInfinity"

section \<open>Application state and observable effects (lines 202-211)\<close>

text \<open>
  The \<^verbatim>\<open>useState\<close> cells of \<^verbatim>\<open>App\<close>. \<open>progress\<close> is a JavaScript number. \<open>pageCount\<close>
  holds one of the integers the page count selector offers, read as a natural number.
\<close>

record App =
  childName :: string
  theme :: string
  pageCount :: nat
  bgColor :: string
  textColor :: string
  accentColor :: string
  isGenerating :: bool
  progress :: number
  pages :: "GeneratedPage list"
  error :: "string option"

text \<open>
  Every effect a handler has beyond its return value, in the order the code performs it:
  the state setters, the request sent to the service, \<^verbatim>\<open>console.error\<close>, the confetti.
\<close>

datatype event =
    PreventDefault
  | SetIsGenerating bool
  | SetProgress number
  | SetPages "GeneratedPage list"
  | SetError "string option"
  | GenerateContent GenerateContentRequest
  | ConsoleError nat exn
  | Confetti

record world = App +
  trace :: "event list"

definition emit :: "event \<Rightarrow> world \<Rightarrow> world" where
  "emit e w = w\<lparr>trace := trace w @ [e]\<rparr>"

definition setIsGenerating :: "bool \<Rightarrow> world \<Rightarrow> world" where
  "setIsGenerating b w = emit (SetIsGenerating b) (w\<lparr>isGenerating := b\<rparr>)"

definition setProgress :: "number \<Rightarrow> world \<Rightarrow> world" where
  "setProgress x w = emit (SetProgress x) (w\<lparr>progress := x\<rparr>)"

definition setPages :: "GeneratedPage list \<Rightarrow> world \<Rightarrow> world" where
  "setPages ps w = emit (SetPages ps) (w\<lparr>pages := ps\<rparr>)"

definition setError :: "string option \<Rightarrow> world \<Rightarrow> world" where
  "setError e w = emit (SetError e) (w\<lparr>error := e\<rparr>)"

text \<open>Projections of a trace: the requests sent, the progress values set, the page lists set.\<close>

fun requestOf :: "event \<Rightarrow> GenerateContentRequest list" where
  "requestOf (GenerateContent r) = [r]"
| "requestOf _ = []"

fun progressOf :: "event \<Rightarrow> number list" where
  "progressOf (SetProgress x) = [x]"
| "progressOf _ = []"

fun pagesOf :: "event \<Rightarrow> GeneratedPage list list" where
  "pagesOf (SetPages ps) = [ps]"
| "pagesOf _ = []"

definition requests :: "event list \<Rightarrow> GenerateContentRequest list" where
  "requests tr = concat (map requestOf tr)"

definition progressUpdates :: "event list \<Rightarrow> number list" where
  "progressUpdates tr = concat (map progressOf tr)"

definition pagesUpdates :: "event list \<Rightarrow> GeneratedPage list list" where
  "pagesUpdates tr = concat (map pagesOf tr)"

section \<open>generateSinglePage (lines 216-260)\<close>

text \<open>
  \<^verbatim>\<open>const variations = [ `A main character ${userTheme} coloring page`, ... ]\<close>
\<close>

definition variations :: "string \<Rightarrow> string list" where
  "variations userTheme =
     [''A main character '' @ userTheme @ '' coloring page'',
      ''A scenic background of '' @ userTheme @ '' coloring page'',
      ''An action scene with '' @ userTheme @ '' coloring page'',
      ''A close up detail of '' @ userTheme @ '' coloring page'',
      ''A group of characters in '' @ userTheme @ '' coloring page'']"

text \<open>
  \<^verbatim>\<open>const prompt = `Black and white ... Subject: ${variations[pageIndex % variations.length]}. High contrast, easy to color.`\<close>
  The index is below the length of \<open>variations\<close>, so the read is in range.
\<close>

definition buildPrompt :: "nat \<Rightarrow> string \<Rightarrow> string" where
  "buildPrompt pageIndex userTheme =
     ''Black and white coloring book page for children. Simple line art, thick black outlines, no shading, no gradients, white background. Subject: ''
     @ variations userTheme ! (pageIndex mod length (variations userTheme))
     @ ''. High contrast, easy to color.''"

text \<open>\<^verbatim>\<open>response.candidates?.[0]?.content?.parts || []\<close>\<close>

definition responseParts :: "GenerateContentResponse \<Rightarrow> Part list" where
  "responseParts response =
     (case candidates response of
        None \<Rightarrow> []
      | Some [] \<Rightarrow> []
      | Some (c # _) \<Rightarrow>
          (case content c of
             None \<Rightarrow> []
           | Some ct \<Rightarrow> (case parts ct of None \<Rightarrow> [] | Some ps \<Rightarrow> ps)))"

text \<open>A template literal prints an absent value as \<^verbatim>\<open>undefined\<close>.\<close>

definition interpolate :: "string option \<Rightarrow> string" where
  "interpolate v = (case v of None \<Rightarrow> ''undefined'' | Some s \<Rightarrow> s)"

text \<open>
  The extraction loop, started with \<^verbatim>\<open>base64 = ''\<close>:
  \<^verbatim>\<open>for (const part of ...) { if (part.inlineData) { base64 = `data:image/png;base64,${part.inlineData.data}`; break; } }\<close>
\<close>

fun extractImage :: "Part list \<Rightarrow> string" where
  "extractImage [] = ''''"
| "extractImage (part # rest) =
     (case inlineData part of
        Some blob \<Rightarrow> ''data:image/png;base64,'' @ interpolate (data blob)
      | None \<Rightarrow> extractImage rest)"

text \<open>
  The body of \<open>generateSinglePage\<close>. The \<^verbatim>\<open>catch\<close> logs the error and throws it again,
  whether it came from the service or from the missing image.
\<close>

definition generateSinglePage ::
  "service \<Rightarrow> nat \<Rightarrow> string \<Rightarrow> world \<Rightarrow> (exn + GeneratedPage) \<times> world" where
  "generateSinglePage ai pageIndex userTheme w =
     (let prompt = buildPrompt pageIndex userTheme;
          request = \<lparr>req_model = MODEL_NAME, req_text = prompt, req_aspectRatio = ''1:1''\<rparr>;
          w1 = emit (GenerateContent request) w
      in case ai request of
           Inl err \<Rightarrow> (Inl err, emit (ConsoleError pageIndex err) w1)
         | Inr response \<Rightarrow>
             (let base64 = extractImage (responseParts response)
              in if base64 = []
                 then (Inl (Error ''No image data received from AI''),
                       emit (ConsoleError pageIndex (Error ''No image data received from AI'')) w1)
                 else (Inr \<lparr>id' = pageIndex, base64 = base64, prompt = prompt\<rparr>, w1)))"

section \<open>handleGenerate (lines 262-293)\<close>

text \<open>
  The loop \<^verbatim>\<open>for (let i = 0; i < pageCount; i++)\<close> inside the \<^verbatim>\<open>try\<close>, from the counter
  \<open>i\<close> on. A throw of \<open>generateSinglePage\<close> leaves the loop at once. The service is given
  per call: \<open>ai i\<close> answers the request for page \<open>i\<close>, the \<open>i\<close>-th call of the run.
  \<^verbatim>\<open>setProgress(((i + 1) / pageCount) * 100)\<close> divides and multiplies numbers; the counter
  and the page count are integers, which a number holds exactly (up to \<open>2\<^sup>5\<^sup>3\<close>).
\<close>

function generateLoop ::
  "(nat \<Rightarrow> service) \<Rightarrow> string \<Rightarrow> nat \<Rightarrow> nat \<Rightarrow> GeneratedPage list \<Rightarrow> world
     \<Rightarrow> (exn + unit) \<times> world" where
  "generateLoop ai userTheme n i newPages w =
     (if i < n then
        (case generateSinglePage (ai i) i userTheme w of
           (Inl err, w1) \<Rightarrow> (Inl err, w1)
         | (Inr page, w1) \<Rightarrow>
             generateLoop ai userTheme n (i + 1) (newPages @ [page])
               (setProgress (jsMultiply (jsDivide (Num (of_nat (i + 1))) (Num (of_nat n))) (Num 100))
                  (setPages (newPages @ [page]) w1)))
      else (Inr (), w))"
  by pat_completeness auto
termination
  by (relation "measure (\<lambda>(ai, userTheme, n, i, newPages, w). n - i)") auto

declare generateLoop.simps [simp del]

text \<open>
  The handler. \<^verbatim>\<open>if (!childName || !theme) return;\<close> tests the two strings for emptiness;
  \<^verbatim>\<open>theme\<close> and \<^verbatim>\<open>pageCount\<close> are the values of the render the handler belongs to.
\<close>

definition handleGenerate :: "(nat \<Rightarrow> service) \<Rightarrow> world \<Rightarrow> world" where
  "handleGenerate ai w =
     (let w0 = emit PreventDefault w
      in if childName w = [] \<or> theme w = [] then w0
         else
           (let w1 = setError None (setPages [] (setProgress (Num 0) (setIsGenerating True w0)));
                (r, w2) = generateLoop ai (theme w) (pageCount w) 0 [] w1;
                w3 = (case r of
                        Inr _ \<Rightarrow> emit Confetti w2
                      | Inl err \<Rightarrow>
                          setError (Some ''Oops! Something went wrong while generating the coloring book. Please try again.'') w2)
            in setIsGenerating False w3))"

section \<open>hexToRgb (lines 75-80)\<close>

text \<open>
  \<^verbatim>\<open>parseInt(string, 16)\<close>: leading white space is skipped, then an optional sign, then an
  optional \<^verbatim>\<open>0x\<close> or \<^verbatim>\<open>0X\<close>; the value is that of the longest run of hexadecimal
  digits that follows, and \<^verbatim>\<open>NaN\<close> (\<open>None\<close>) when that run is empty. A \<open>char\<close> stands for
  a code unit below 256, so white space is the ASCII white space and the no-break space
  U+00A0; the white space characters above U+00FF are outside the alphabet of the model.
  \<^verbatim>\<open>-0\<close> is read as \<open>0\<close>.
\<close>

definition hexDigitValue :: "char \<Rightarrow> nat option" where
  "hexDigitValue c =
     (let n = (of_char c :: nat)
      in if 48 \<le> n \<and> n \<le> 57 then Some (n - 48)
         else if 97 \<le> n \<and> n \<le> 102 then Some (n - 87)
         else if 65 \<le> n \<and> n \<le> 70 then Some (n - 55)
         else None)"

definition isWhiteSpace :: "char \<Rightarrow> bool" where
  "isWhiteSpace c = ((of_char c :: nat) \<in> {9, 10, 11, 12, 13, 32, 160})"

fun leadingDigits :: "string \<Rightarrow> nat list" where
  "leadingDigits [] = []"
| "leadingDigits (c # cs) =
     (case hexDigitValue c of None \<Rightarrow> [] | Some d \<Rightarrow> d # leadingDigits cs)"

definition stripSign :: "string \<Rightarrow> int \<times> string" where
  "stripSign S =
     (case S of
        [] \<Rightarrow> (1, S)
      | c # rest \<Rightarrow>
          if c = CHR ''-'' then (-1, rest)
          else if c = CHR ''+'' then (1, rest)
          else (1, S))"

definition stripPrefix :: "string \<Rightarrow> string" where
  "stripPrefix S =
     (case S of
        a # b # rest \<Rightarrow>
          if a = CHR ''0'' \<and> (b = CHR ''x'' \<or> b = CHR ''X'') then rest else S
      | _ \<Rightarrow> S)"

definition parseInt16 :: "string \<Rightarrow> int option" where
  "parseInt16 str =
     (let (sign, S) = stripSign (dropWhile isWhiteSpace str);
          Z = leadingDigits (stripPrefix S)
      in if Z = [] then None
         else Some (sign * int (foldl (\<lambda>acc d. 16 * acc + d) 0 Z)))"

text \<open>\<^verbatim>\<open>str.slice(a, b)\<close> for constants \<open>0 \<le> a \<le> b\<close>; a short string gives a short slice.\<close>

definition slice :: "string \<Rightarrow> nat \<Rightarrow> nat \<Rightarrow> string" where
  "slice str a b = take (b - a) (drop a str)"

type_synonym channel = "int option"

definition hexToRgb :: "string \<Rightarrow> channel \<times> channel \<times> channel" where
  "hexToRgb hex =
     (let r = parseInt16 (slice hex 1 3);
          g = parseInt16 (slice hex 3 5);
          b = parseInt16 (slice hex 5 7)
      in (r, g, b))"

section \<open>The document renderer at its interface\<close>

text \<open>
  The calls \<open>downloadPDF\<close> makes on the \<^verbatim>\<open>jsPDF\<close> object, with their arguments. The fourth
  argument of \<^verbatim>\<open>setTextColor\<close> and the style of \<^verbatim>\<open>rect\<close> are optional in the source.
\<close>

datatype pdf_call =
    SetFillColor channel channel channel
  | SetDrawColor channel channel channel
  | SetTextColor channel channel channel "rat option"
  | SetFontSize nat
  | Rect rat rat rat rat "string option"
  | Text string rat rat string
  | AddImage string string rat rat rat rat

text \<open>
  The document under construction: the pages already closed, and the calls made on the
  current page. A new document has one empty page; \<^verbatim>\<open>addPage\<close> closes the current page and
  opens another; \<^verbatim>\<open>save\<close> names the file.
\<close>

record jsPDF =
  closed :: "pdf_call list list"
  current :: "pdf_call list"
  saved :: "string list"

definition newJsPDF :: jsPDF where
  "newJsPDF = \<lparr>closed = [], current = [], saved = []\<rparr>"

definition call :: "pdf_call \<Rightarrow> jsPDF \<Rightarrow> jsPDF" where
  "call c doc = doc\<lparr>current := current doc @ [c]\<rparr>"

definition calls :: "pdf_call list \<Rightarrow> jsPDF \<Rightarrow> jsPDF" where
  "calls cs doc = foldl (\<lambda>d c. call c d) doc cs"

definition addPage :: "jsPDF \<Rightarrow> jsPDF" where
  "addPage doc = doc\<lparr>closed := closed doc @ [current doc], current := []\<rparr>"

definition save :: "string \<Rightarrow> jsPDF \<Rightarrow> jsPDF" where
  "save filename doc = doc\<lparr>saved := saved doc @ [filename]\<rparr>"

definition docPages :: "jsPDF \<Rightarrow> pdf_call list list" where
  "docPages doc = closed doc @ [current doc]"

section \<open>downloadPDF (lines 295-355)\<close>

text \<open>
  \<open>pageWidth\<close> and \<open>pageHeight\<close> are what the renderer reports for a portrait A4 page in
  millimetres; they are parameters here.
\<close>

definition apostrophe :: string where
  "apostrophe = [CHR 0x27]"

text \<open>The cover page, lines 308-331; the preview is added \<^verbatim>\<open>if (pages.length > 0)\<close>.\<close>

definition coverCalls :: "rat \<Rightarrow> rat \<Rightarrow> 'a App_scheme \<Rightarrow> pdf_call list" where
  "coverCalls pageWidth pageHeight s =
     (let (bgR, bgG, bgB) = hexToRgb (bgColor s);
          (textR, textG, textB) = hexToRgb (textColor s)
      in [SetFillColor bgR bgG bgB,
          Rect 0 0 pageWidth pageHeight (Some ''F''),
          SetTextColor textR textG textB None,
          SetFontSize 32,
          Text (childName s @ apostrophe @ ''s'') (pageWidth / 2) 80 ''center'',
          SetFontSize 48,
          Text ''Coloring Book'' (pageWidth / 2) 105 ''center'',
          SetFontSize 18,
          SetTextColor textR textG textB (Some (7 / 10)),
          Text (''Theme: '' @ theme s) (pageWidth / 2) 130 ''center'']
         @ (case pages s of
              [] \<Rightarrow> []
            | first # _ \<Rightarrow>
                [AddImage (base64 first) ''PNG'' (pageWidth / 4) 150 (pageWidth / 2) (pageWidth / 2)])
         @ [SetFontSize 12,
            SetTextColor textR textG textB (Some (1 / 2)),
            Text ''Generated with AI Magic'' (pageWidth / 2) (pageHeight - 20) ''center''])"

text \<open>
  The body of \<^verbatim>\<open>pages.forEach((page) => { ... })\<close>, lines 334-352: \<^verbatim>\<open>doc.addPage()\<close>, then
  the calls that draw the page.
\<close>

definition coloringPageCalls :: "rat \<Rightarrow> rat \<Rightarrow> string \<Rightarrow> GeneratedPage \<Rightarrow> pdf_call list" where
  "coloringPageCalls pageWidth pageHeight name page =
     (let imgSize = pageWidth - 40;
          x = 20;
          y = (pageHeight - imgSize) / 2
      in [SetDrawColor (Some 200) (Some 200) (Some 200),
          Rect 10 10 (pageWidth - 20) (pageHeight - 20) None,
          AddImage (base64 page) ''PNG'' x y imgSize imgSize,
          SetFontSize 10,
          SetTextColor (Some 150) (Some 150) (Some 150) None,
          Text (''Page for '' @ name) (pageWidth / 2) (pageHeight - 15) ''center''])"

definition coloringPage :: "rat \<Rightarrow> rat \<Rightarrow> string \<Rightarrow> jsPDF \<Rightarrow> GeneratedPage \<Rightarrow> jsPDF" where
  "coloringPage pageWidth pageHeight name doc page =
     calls (coloringPageCalls pageWidth pageHeight name page) (addPage doc)"

definition downloadPDF :: "rat \<Rightarrow> rat \<Rightarrow> 'a App_scheme \<Rightarrow> jsPDF" where
  "downloadPDF pageWidth pageHeight s =
     (let doc = calls (coverCalls pageWidth pageHeight s) newJsPDF;
          doc = foldl (coloringPage pageWidth pageHeight (childName s)) doc (pages s)
      in save (childName s @ ''_Coloring_Book.pdf'') doc)"

text \<open>
  The results section with the download button is rendered under
  \<^verbatim>\<open>{pages.length > 0 && ( ... <button onClick={downloadPDF}> ... )}\<close> (lines 606-624).
\<close>

definition downloadOffered :: "'a App_scheme \<Rightarrow> bool" where
  "downloadOffered s = (length (pages s) > 0)"

section \<open>Reading a page of the document\<close>

text \<open>The images placed on a page, in order.\<close>

fun imageOf :: "pdf_call \<Rightarrow> string list" where
  "imageOf (AddImage img fmt x y w h) = [img]"
| "imageOf _ = []"

definition imagesOn :: "pdf_call list \<Rightarrow> string list" where
  "imagesOn cs = concat (map imageOf cs)"

text \<open>
  The renderer keeps a current fill colour and a current text colour; a filled rectangle and
  a text are drawn in the colour current at the call. \<open>None\<close> is the renderer's default,
  before any colour was set.
\<close>

type_synonym rgb = "channel \<times> channel \<times> channel"

fun filledRects :: "rgb option \<Rightarrow> pdf_call list \<Rightarrow> (rgb option \<times> rat \<times> rat \<times> rat \<times> rat) list" where
  "filledRects fill [] = []"
| "filledRects fill (SetFillColor r g b # cs) = filledRects (Some (r, g, b)) cs"
| "filledRects fill (Rect x y w h (Some style) # cs) =
     (if style = ''F'' then (fill, x, y, w, h) # filledRects fill cs else filledRects fill cs)"
| "filledRects fill (_ # cs) = filledRects fill cs"

fun textsDrawn :: "(rgb \<times> rat option) option \<Rightarrow> pdf_call list \<Rightarrow> ((rgb \<times> rat option) option \<times> string) list" where
  "textsDrawn col [] = []"
| "textsDrawn col (SetTextColor r g b a # cs) = textsDrawn (Some ((r, g, b), a)) cs"
| "textsDrawn col (Text str x y align # cs) = (col, str) # textsDrawn col cs"
| "textsDrawn col (_ # cs) = textsDrawn col cs"

section \<open>The variation templates as the specification lists them\<close>

text \<open>
  The five variation templates of the specification, by number, with \<open>{theme}\<close> replaced.
\<close>

definition spec_variation :: "nat \<Rightarrow> string \<Rightarrow> string" where
  "spec_variation k t =
     (if k = 0 then ''A main character '' @ t @ '' coloring page''
      else if k = 1 then ''A scenic background of '' @ t @ '' coloring page''
      else if k = 2 then ''An action scene with '' @ t @ '' coloring page''
      else if k = 3 then ''A close up detail of '' @ t @ '' coloring page''
      else ''A group of characters in '' @ t @ '' coloring page'')"

section \<open>Vocabulary for statements about a run\<close>

text \<open>The request \<open>generateSinglePage\<close> sends for page \<open>i\<close> of theme \<open>t\<close>.\<close>

definition pageRequest :: "nat \<Rightarrow> string \<Rightarrow> GenerateContentRequest" where
  "pageRequest i t =
     \<lparr>req_model = MODEL_NAME, req_text = buildPrompt i t, req_aspectRatio = ''1:1''\<rparr>"

text \<open>
  The request for page \<open>k\<close> succeeds when the service answers it with a response that has
  an inline image payload among its parts (lemma \<open>succeedsAt_iff\<close> relates this to
  \<open>generateSinglePage\<close> itself).
\<close>

definition hasImage :: "GenerateContentResponse \<Rightarrow> bool" where
  "hasImage r = (\<exists>p \<in> set (responseParts r). inlineData p \<noteq> None)"

definition succeedsAt :: "(nat \<Rightarrow> service) \<Rightarrow> string \<Rightarrow> nat \<Rightarrow> bool" where
  "succeedsAt ai t k = (case ai k (pageRequest k t) of Inl _ \<Rightarrow> False | Inr r \<Rightarrow> hasImage r)"

text \<open>The page a successful request for index \<open>k\<close> yields, and the error a failed one throws.\<close>

definition expectedPage :: "(nat \<Rightarrow> service) \<Rightarrow> string \<Rightarrow> nat \<Rightarrow> GeneratedPage" where
  "expectedPage ai t k =
     \<lparr>id' = k,
      base64 = (case ai k (pageRequest k t) of
                  Inl _ \<Rightarrow> []
                | Inr r \<Rightarrow> extractImage (responseParts r)),
      prompt = buildPrompt k t\<rparr>"

definition failureAt :: "(nat \<Rightarrow> service) \<Rightarrow> string \<Rightarrow> nat \<Rightarrow> exn" where
  "failureAt ai t k =
     (case ai k (pageRequest k t) of
        Inl e \<Rightarrow> e
      | Inr _ \<Rightarrow> Error ''No image data received from AI'')"

text \<open>The value of \<^verbatim>\<open>((k / n) * 100)\<close>, which the loop sets after page \<open>k\<close> of \<open>n\<close>.\<close>

definition percentDone :: "nat \<Rightarrow> nat \<Rightarrow> number" where
  "percentDone k n = jsMultiply (jsDivide (Num (of_nat k)) (Num (of_nat n))) (Num 100)"

text \<open>The events of one successful iteration of the loop, and those of the failing one.\<close>

definition pageEvents :: "(nat \<Rightarrow> service) \<Rightarrow> string \<Rightarrow> nat \<Rightarrow> nat \<Rightarrow> event list" where
  "pageEvents ai t n k =
     [GenerateContent (pageRequest k t),
      SetPages (map (expectedPage ai t) [0..<Suc k]),
      SetProgress (percentDone (Suc k) n)]"

definition failureEvents :: "(nat \<Rightarrow> service) \<Rightarrow> string \<Rightarrow> nat \<Rightarrow> event list" where
  "failureEvents ai t k =
     [GenerateContent (pageRequest k t), ConsoleError k (failureAt ai t k)]"

definition oopsMessage :: string where
  "oopsMessage =
     ''Oops! Something went wrong while generating the coloring book. Please try again.''"

section \<open>Concrete inputs\<close>

definition imagePart :: "string \<Rightarrow> Part" where
  "imagePart d =
     \<lparr>part_text = None, inlineData = Some \<lparr>mimeType = Some ''image/png'', data = Some d\<rparr>\<rparr>"

definition textPart :: "string \<Rightarrow> Part" where
  "textPart s = \<lparr>part_text = Some s, inlineData = None\<rparr>"

definition responseWith :: "Part list \<Rightarrow> GenerateContentResponse" where
  "responseWith ps = \<lparr>candidates = Some [\<lparr>content = Some \<lparr>parts = Some ps\<rparr>\<rparr>]\<rparr>"

text \<open>A service that answers every request with one image, and one that rejects call \<open>j\<close>.\<close>

definition aiAllOk :: "nat \<Rightarrow> service" where
  "aiAllOk k request = Inr (responseWith [textPart ''Here you go'', imagePart ''iVBORw0KGgo''])"

definition aiFailsAt :: "nat \<Rightarrow> nat \<Rightarrow> service" where
  "aiFailsAt j k request =
     (if k = j then Inl (ApiError ''503 Service Unavailable'') else aiAllOk k request)"

definition exampleWorld :: world where
  "exampleWorld =
     \<lparr>childName = ''Aaru'', theme = ''Space Dinosaurs'', pageCount = 3,
      bgColor = ''#f5f5f0'', textColor = ''#282828'', accentColor = ''#f97316'',
      isGenerating = False, progress = Num 0, pages = [], error = None, trace = []\<rparr>"

definition examplePages :: "GeneratedPage list" where
  "examplePages =
     [\<lparr>id' = 0, base64 = ''data:image/png;base64,AAAA'', prompt = buildPrompt 0 ''Space Dinosaurs''\<rparr>,
      \<lparr>id' = 1, base64 = ''data:image/png;base64,BBBB'', prompt = buildPrompt 1 ''Space Dinosaurs''\<rparr>]"

section \<open>Lemmas on generateSinglePage and the loop\<close>

lemma extractImage_empty: "extractImage ps = [] \<longleftrightarrow> (\<forall>p \<in> set ps. inlineData p = None)"
  by (induction ps) (auto split: option.splits)

lemma gsp_success:
  assumes "succeedsAt ai t k"
  shows "generateSinglePage (ai k) k t w =
     (Inr (expectedPage ai t k), emit (GenerateContent (pageRequest k t)) w)"
  using assms
  by (auto simp: succeedsAt_def generateSinglePage_def expectedPage_def pageRequest_def
      hasImage_def extractImage_empty Let_def split: sum.splits)

lemma gsp_failure:
  assumes "\<not> succeedsAt ai t k"
  shows "generateSinglePage (ai k) k t w =
     (Inl (failureAt ai t k),
      emit (ConsoleError k (failureAt ai t k)) (emit (GenerateContent (pageRequest k t)) w))"
  using assms
  by (auto simp: succeedsAt_def generateSinglePage_def failureAt_def pageRequest_def
      hasImage_def extractImage_empty Let_def split: sum.splits)

lemma succeedsAt_iff:
  "succeedsAt ai t k \<longleftrightarrow> (\<exists>page. fst (generateSinglePage (ai k) k t w) = Inr page)"
  by (cases "succeedsAt ai t k") (simp_all add: gsp_success gsp_failure)

lemma loop_stop: "\<not> i < n \<Longrightarrow> generateLoop ai t n i acc w = (Inr (), w)"
  by (subst generateLoop.simps) simp

lemma loop_fail:
  "i < n \<Longrightarrow> \<not> succeedsAt ai t i \<Longrightarrow>
   generateLoop ai t n i acc w =
     (Inl (failureAt ai t i), w\<lparr>trace := trace w @ failureEvents ai t i\<rparr>)"
  by (subst generateLoop.simps) (simp add: gsp_failure emit_def failureEvents_def)

lemma loop_step:
  "i < n \<Longrightarrow> succeedsAt ai t i \<Longrightarrow>
   generateLoop ai t n i acc w =
     generateLoop ai t n (Suc i) (acc @ [expectedPage ai t i])
       (w\<lparr>pages := acc @ [expectedPage ai t i],
          progress := percentDone (Suc i) n,
          trace := trace w @ [GenerateContent (pageRequest i t),
                     SetPages (acc @ [expectedPage ai t i]),
                     SetProgress (percentDone (Suc i) n)]\<rparr>)"
  by (subst generateLoop.simps)
     (simp add: gsp_success emit_def setProgress_def setPages_def percentDone_def)

text \<open>
  The loop from counter \<open>i\<close>, when the requests \<open>i..m-1\<close> succeed and either \<open>m\<close> is the page
  count or the request \<open>m\<close> fails: by induction on the number \<open>m - i\<close> of iterations left.
\<close>

lemma loop_run:
  assumes "i \<le> m" "m \<le> n"
    and "\<forall>k. i \<le> k \<and> k < m \<longrightarrow> succeedsAt ai t k"
    and "m < n \<longrightarrow> \<not> succeedsAt ai t m"
    and "acc = map (expectedPage ai t) [0..<i]"
  shows "generateLoop ai t n i acc w =
     (if m < n then Inl (failureAt ai t m) else Inr (),
      w\<lparr>pages := (if i < m then map (expectedPage ai t) [0..<m] else pages w),
        progress := (if i < m then percentDone m n else progress w),
        trace := trace w @ concat (map (pageEvents ai t n) [i..<m])
                 @ (if m < n then failureEvents ai t m else [])\<rparr>)"
  using assms
proof (induction "m - i" arbitrary: i acc w)
  case 0
  then have im: "i = m" by simp
  show ?case
  proof (cases "m < n")
    case True
    with 0 im show ?thesis by (simp add: loop_fail)
  next
    case False
    with 0 im show ?thesis by (simp add: loop_stop)
  qed
next
  case (Suc d)
  then have lt: "i < m" and ltn: "i < n" and ok: "succeedsAt ai t i" by auto
  have d: "d = m - Suc i" using Suc.hyps(2) by simp
  have acc': "acc @ [expectedPage ai t i] = map (expectedPage ai t) [0..<Suc i]"
    using Suc.prems(5) by simp
  note IH = Suc.hyps(1)[OF d, where acc = "acc @ [expectedPage ai t i]"]
  have le: "Suc i \<le> m" using lt by simp
  have succ: "\<forall>k. Suc i \<le> k \<and> k < m \<longrightarrow> succeedsAt ai t k" using Suc.prems(3) by auto
  show ?case
    apply (subst loop_step[OF ltn ok])
    apply (subst IH[OF le Suc.prems(2) succ Suc.prems(4) acc'])
    using lt le
    apply (auto simp: upt_conv_Cons[of i m] pageEvents_def acc')
    done
qed

text \<open>
  A whole run of the handler past its guard, with \<open>m\<close> the number of pages obtained: the
  final state and the events, in order.
\<close>

lemma handleGenerate_run:
  assumes "childName w \<noteq> []" "theme w \<noteq> []" "m \<le> pageCount w"
    and "\<forall>k<m. succeedsAt ai (theme w) k"
    and "m < pageCount w \<longrightarrow> \<not> succeedsAt ai (theme w) m"
  shows "handleGenerate ai w =
     w\<lparr>isGenerating := False,
       progress := (if m = 0 then Num 0 else percentDone m (pageCount w)),
       pages := map (expectedPage ai (theme w)) [0..<m],
       error := (if m < pageCount w then Some oopsMessage else None),
       trace := trace w
         @ [PreventDefault, SetIsGenerating True, SetProgress (Num 0), SetPages [], SetError None]
         @ concat (map (pageEvents ai (theme w) (pageCount w)) [0..<m])
         @ (if m < pageCount w
            then failureEvents ai (theme w) m @ [SetError (Some oopsMessage)]
            else [Confetti])
         @ [SetIsGenerating False]\<rparr>"
proof -
  have succ: "\<forall>k. 0 \<le> k \<and> k < m \<longrightarrow> succeedsAt ai (theme w) k" using assms(4) by simp
  have acc: "[] = map (expectedPage ai (theme w)) [0..<0]" by simp
  note run = loop_run[OF le0 assms(3) succ assms(5) acc]
  show ?thesis
    using assms(1,2)
    by (simp add: handleGenerate_def Let_def run emit_def setError_def setPages_def
        setProgress_def setIsGenerating_def oopsMessage_def)
qed

lemma requests_append: "requests (a @ b) = requests a @ requests b"
  by (simp add: requests_def)

lemma progressUpdates_append: "progressUpdates (a @ b) = progressUpdates a @ progressUpdates b"
  by (simp add: progressUpdates_def)

lemma pagesUpdates_append: "pagesUpdates (a @ b) = pagesUpdates a @ pagesUpdates b"
  by (simp add: pagesUpdates_def)

lemma requests_pageEvents:
  "requests (concat (map (pageEvents ai t n) ks)) = map (\<lambda>k. pageRequest k t) ks"
  by (induction ks) (simp_all add: requests_def pageEvents_def)

lemma progressUpdates_pageEvents:
  "progressUpdates (concat (map (pageEvents ai t n) ks))
     = map (\<lambda>k. percentDone (Suc k) n) ks"
  by (induction ks) (simp_all add: progressUpdates_def pageEvents_def)

lemma pagesUpdates_pageEvents:
  "pagesUpdates (concat (map (pageEvents ai t n) ks))
     = map (\<lambda>k. map (expectedPage ai t) [0..<Suc k]) ks"
  by (induction ks) (simp_all add: pagesUpdates_def pageEvents_def)

lemma requests_simps:
  "requests [] = []" "requests (e # es) = requestOf e @ requests es"
  by (simp_all add: requests_def)

lemma progressUpdates_simps:
  "progressUpdates [] = []" "progressUpdates (e # es) = progressOf e @ progressUpdates es"
  by (simp_all add: progressUpdates_def)

lemma pagesUpdates_simps:
  "pagesUpdates [] = []" "pagesUpdates (e # es) = pagesOf e @ pagesUpdates es"
  by (simp_all add: pagesUpdates_def)

lemma aiAllOk_succeeds: "succeedsAt aiAllOk t k"
  by (simp add: succeedsAt_def aiAllOk_def hasImage_def responseParts_def responseWith_def
      imagePart_def textPart_def)

lemma aiFailsAt_succeeds: "succeedsAt (aiFailsAt j) t k \<longleftrightarrow> k \<noteq> j"
  by (simp add: succeedsAt_def aiFailsAt_def aiAllOk_def hasImage_def responseParts_def
      responseWith_def imagePart_def textPart_def)

section \<open>Claims about the generation run\<close>

text \<open>
  Claim C1. A run of the handler that passes its guard (recipient name and theme not empty)
  and in which every request succeeds issues exactly \<open>pageCount\<close> requests, those for the
  pages \<open>0..pageCount-1\<close> in this order, and leaves \<open>pageCount\<close> pages whose \<open>id\<close> fields are
  \<open>0..pageCount-1\<close> in ascending order, with no error. This holds for every page count,
  so for each of 1 to 5.
\<close>

theorem generate_all_succeed:
  assumes "childName w \<noteq> []" and "theme w \<noteq> []"
    and "\<forall>k<pageCount w. succeedsAt ai (theme w) k"
  shows "requests (trace (handleGenerate ai w))
           = requests (trace w) @ map (\<lambda>k. pageRequest k (theme w)) [0..<pageCount w]
       \<and> length (requests (trace (handleGenerate ai w)))
           = length (requests (trace w)) + pageCount w
       \<and> length (pages (handleGenerate ai w)) = pageCount w
       \<and> map id' (pages (handleGenerate ai w)) = [0..<pageCount w]
       \<and> error (handleGenerate ai w) = None"
proof -
  note run = handleGenerate_run[OF assms(1,2) le_refl assms(3)]
  have ids: "map id' (map (expectedPage ai (theme w)) [0..<pageCount w]) = [0..<pageCount w]"
    by (simp add: expectedPage_def map_idI)
  show ?thesis
    using ids
    by (simp add: run requests_append requests_pageEvents requests_simps)
qed

theorem generate_all_succeed_witness:
  "length (requests (trace (handleGenerate aiAllOk exampleWorld))) = 3
   \<and> map id' (pages (handleGenerate aiAllOk exampleWorld)) = [0, 1, 2]
   \<and> error (handleGenerate aiAllOk exampleWorld) = None"
proof -
  have a: "childName exampleWorld \<noteq> []" and b: "theme exampleWorld \<noteq> []"
    by (simp_all add: exampleWorld_def)
  have c: "\<forall>k<pageCount exampleWorld. succeedsAt aiAllOk (theme exampleWorld) k"
    by (simp add: aiAllOk_succeeds)
  have n: "pageCount exampleWorld = 3" "requests (trace exampleWorld) = []"
    by (simp_all add: exampleWorld_def requests_def)
  have u: "[0..<3] = [0, 1, 2::nat]" by (simp add: upt_rec)
  show ?thesis
    using generate_all_succeed[OF a b c] by (simp add: n u)
qed

text \<open>
  Claim C3. When the request for page \<open>j\<close> fails (the requests before it having succeeded,
  which is when it is issued at all), the run has issued the requests for the pages
  \<open>0..j\<close> and no other, so none for an index above \<open>j\<close>; the error message is set, no
  confetti is fired, and \<open>isGenerating\<close> is reset.
\<close>

theorem failure_stops_run:
  assumes "childName w \<noteq> []" and "theme w \<noteq> []"
    and "j < pageCount w"
    and "\<forall>k<j. succeedsAt ai (theme w) k"
    and "\<not> succeedsAt ai (theme w) j"
  shows "requests (trace (handleGenerate ai w))
           = requests (trace w) @ map (\<lambda>k. pageRequest k (theme w)) [0..<Suc j]
       \<and> length (requests (trace (handleGenerate ai w)))
           = length (requests (trace w)) + Suc j
       \<and> error (handleGenerate ai w) = Some oopsMessage
       \<and> SetError (Some oopsMessage) \<in> set (drop (length (trace w)) (trace (handleGenerate ai w)))
       \<and> Confetti \<notin> set (drop (length (trace w)) (trace (handleGenerate ai w)))
       \<and> isGenerating (handleGenerate ai w) = False"
proof -
  have f: "j < pageCount w \<longrightarrow> \<not> succeedsAt ai (theme w) j" using assms(5) by simp
  note run = handleGenerate_run[OF assms(1,2) less_imp_le[OF assms(3)] assms(4) f]
  show ?thesis
    using assms(3)
    by (auto simp: run requests_append requests_pageEvents requests_simps failureEvents_def
        pageEvents_def)
qed

theorem failure_stops_run_witness:
  "\<not> succeedsAt (aiFailsAt 1) (theme exampleWorld) 1
   \<and> length (requests (trace (handleGenerate (aiFailsAt 1) exampleWorld))) = 2
   \<and> error (handleGenerate (aiFailsAt 1) exampleWorld) = Some oopsMessage
   \<and> isGenerating (handleGenerate (aiFailsAt 1) exampleWorld) = False"
proof -
  have a: "childName exampleWorld \<noteq> []" and b: "theme exampleWorld \<noteq> []"
    and c: "1 < pageCount exampleWorld"
    by (simp_all add: exampleWorld_def)
  have d: "\<forall>k<1. succeedsAt (aiFailsAt 1) (theme exampleWorld) k"
    by (simp add: aiFailsAt_succeeds)
  have e: "\<not> succeedsAt (aiFailsAt 1) (theme exampleWorld) 1"
    by (simp add: aiFailsAt_succeeds)
  have n: "requests (trace exampleWorld) = []"
    by (simp add: exampleWorld_def requests_def)
  show ?thesis
    using failure_stops_run[OF a b c d e] e by (simp add: n)
qed

text \<open>
  Claim C9. When the recipient name or the theme is the empty string, the handler only
  calls \<^verbatim>\<open>preventDefault\<close>: it issues no request and leaves \<open>pages\<close>, \<open>progress\<close>, \<open>error\<close>
  and \<open>isGenerating\<close> (and every other state cell) as they were.
\<close>

theorem empty_input_no_run:
  assumes "childName w = [] \<or> theme w = []"
  shows "handleGenerate ai w = w\<lparr>trace := trace w @ [PreventDefault]\<rparr>
       \<and> requests (trace (handleGenerate ai w)) = requests (trace w)
       \<and> pages (handleGenerate ai w) = pages w
       \<and> progress (handleGenerate ai w) = progress w
       \<and> error (handleGenerate ai w) = error w
       \<and> isGenerating (handleGenerate ai w) = isGenerating w"
  using assms
  by (auto simp: handleGenerate_def emit_def requests_def)

theorem empty_input_no_run_witness:
  "theme (exampleWorld\<lparr>theme := []\<rparr>) = []
   \<and> requests (trace (handleGenerate aiAllOk (exampleWorld\<lparr>theme := []\<rparr>))) = []
   \<and> pages (handleGenerate aiAllOk (exampleWorld\<lparr>theme := []\<rparr>)) = []
   \<and> isGenerating (handleGenerate aiAllOk (exampleWorld\<lparr>theme := []\<rparr>)) = False"
proof -
  have a: "childName (exampleWorld\<lparr>theme := []\<rparr>) = [] \<or> theme (exampleWorld\<lparr>theme := []\<rparr>) = []"
    by simp
  show ?thesis
    using empty_input_no_run[OF a, of aiAllOk] by (simp add: exampleWorld_def requests_def)
qed

section \<open>Progress values\<close>

text \<open>The exponent found by \<open>log2floor\<close> is the one that brackets its argument.\<close>

lemma flog2_bounds: "1 \<le> y \<Longrightarrow> 2 ^ flog2 y \<le> y \<and> y < 2 ^ Suc (flog2 y)"
proof (induction y rule: flog2.induct)
  case (1 y)
  show ?case
  proof (cases "y < 2")
    case True
    with 1(2) show ?thesis by (simp add: flog2.simps)
  next
    case False
    then have "1 \<le> y / 2" by simp
    with 1(1)[OF False] have "2 ^ flog2 (y / 2) \<le> y / 2 \<and> y / 2 < 2 ^ Suc (flog2 (y / 2))"
      by blast
    moreover have "flog2 y = Suc (flog2 (y / 2))"
      using False by (subst flog2.simps) simp
    ultimately show ?thesis by simp
  qed
qed

lemma pow2_less_imp: "(2::rat) powi a < 2 powi b \<Longrightarrow> a < b"
proof (rule ccontr)
  assume lt: "(2::rat) powi a < 2 powi b" and "\<not> a < b"
  then have "b \<le> a" by simp
  then have "(2::rat) powi b \<le> 2 powi a" by (intro power_int_increasing) simp_all
  with lt show False by simp
qed

lemma log2floor_bounds:
  assumes "0 < x"
  shows "2 powi log2floor x \<le> x \<and> x < 2 powi (log2floor x + 1)"
proof (cases "1 \<le> x")
  case True
  have "int (flog2 x) + 1 = int (Suc (flog2 x))" by simp
  then have "(2::rat) powi (int (flog2 x) + 1) = 2 ^ Suc (flog2 x)"
    by (simp only: power_int_of_nat)
  with flog2_bounds[OF True] True show ?thesis
    by (simp add: log2floor_def)
next
  case False
  define c where "c = flog2 (1 / x)"
  have "1 \<le> 1 / x" using assms False by simp
  from flog2_bounds[OF this] have lo: "2 ^ c \<le> 1 / x" and hi: "1 / x < 2 ^ Suc c"
    by (simp_all add: c_def)
  have up: "x \<le> 2 powi (- int c)"
    using lo assms by (simp add: power_int_minus field_simps)
  have dn: "2 powi (- int c - 1) < x"
  proof -
    have "- int c - 1 = - int (Suc c)" by simp
    then have "(2::rat) powi (- int c - 1) = inverse (2 ^ Suc c)"
      by (simp only: power_int_minus power_int_of_nat)
    moreover have "1 < x * 2 ^ Suc c"
      using hi assms by (simp add: pos_divide_less_eq mult.commute)
    then have "inverse (2 ^ Suc c) < x"
      by (simp add: inverse_eq_divide pos_divide_less_eq)
    ultimately show ?thesis by simp
  qed
  show ?thesis
  proof (cases "x = 2 powi (- int c)")
    case True
    then have e: "log2floor x = - int c"
      using False by (simp add: log2floor_def c_def Let_def)
    have "(2::rat) powi (- int c) < 2 powi (- int c + 1)"
      by (intro power_int_strict_increasing) simp_all
    with True e show ?thesis by simp
  next
    case neq: False
    then have e: "log2floor x = - int c - 1"
      using False by (simp add: log2floor_def c_def Let_def)
    from up neq have "x < 2 powi (- int c)" by simp
    with dn e show ?thesis by simp
  qed
qed

lemma log2floor_range:
  assumes "0 < x" and "2 powi a \<le> x" and "x < 2 powi b"
  shows "a \<le> log2floor x \<and> log2floor x < b"
proof -
  from log2floor_bounds[OF assms(1)]
  have lo: "2 powi log2floor x \<le> x" and hi: "x < 2 powi (log2floor x + 1)" by simp_all
  from lo assms(3) have "(2::rat) powi log2floor x < 2 powi b" by simp
  then have 1: "log2floor x < b" by (rule pow2_less_imp)
  from assms(2) hi have "(2::rat) powi a < 2 powi (log2floor x + 1)" by simp
  then have "a < log2floor x + 1" by (rule pow2_less_imp)
  with 1 show ?thesis by simp
qed

lemma log2floor_unique:
  assumes "0 < x" and "2 powi e \<le> x" and "x < 2 powi (e + 1)"
  shows "log2floor x = e"
  using log2floor_range[OF assms] by simp

lemma roundHalfEven_bounds: "\<lfloor>y\<rfloor> \<le> roundHalfEven y \<and> roundHalfEven y \<le> \<lfloor>y\<rfloor> + 1"
  by (simp add: roundHalfEven_def Let_def)

lemma roundHalfEven_error: "\<bar>of_int (roundHalfEven y) - y\<bar> \<le> 1 / 2"
proof -
  define f where "f = \<lfloor>y\<rfloor>"
  have b: "of_int f \<le> y" "y < of_int f + 1" unfolding f_def by linarith+
  have "roundHalfEven y =
     (if y - of_int f < 1 / 2 then f
      else if 1 / 2 < y - of_int f then f + 1
      else if even f then f else f + 1)"
    by (simp add: roundHalfEven_def Let_def f_def)
  with b show ?thesis by (auto simp: abs_if)
qed

lemma roundToDouble_normal:
  assumes "0 < x" and "2 powi e \<le> x" and "x < 2 powi (e + 1)"
    and "- 1022 \<le> e" and "e \<le> 1022"
  shows "roundToDouble x = Num (of_int (roundHalfEven (x / 2 powi (e - 52))) * 2 powi (e - 52))"
proof -
  let ?u = "(2::rat) powi (e - 52)"
  have e: "log2floor x = e" by (rule log2floor_unique[OF assms(1-3)])
  have u: "0 < ?u" by simp
  have "x / ?u < 2 powi (e + 1) / ?u" using assms(3) u by (simp add: divide_strict_right_mono)
  also have "2 powi (e + 1) / ?u = 2 powi 53"
    by (simp add: power_int_diff[symmetric])
  finally have "x / ?u < 2 ^ 53" by simp
  then have "\<lfloor>x / ?u\<rfloor> < 2 ^ 53" by (simp add: floor_less_iff)
  with roundHalfEven_bounds[of "x / ?u"] have "roundHalfEven (x / ?u) \<le> 2 ^ 53" by linarith
  then have "(of_int (roundHalfEven (x / ?u)) :: rat) \<le> of_int (2 ^ 53)" by (simp only: of_int_le_iff)
  then have "of_int (roundHalfEven (x / ?u)) * ?u \<le> 2 ^ 53 * ?u"
    using u by (simp add: mult_right_mono)
  also have "2 ^ 53 * ?u = 2 powi (e + 1)"
  proof -
    have "(2::rat) powi (53 + (e - 52)) = 2 powi 53 * 2 powi (e - 52)"
      by (rule power_int_add) simp
    moreover have "53 + (e - 52) = e + 1" by simp
    ultimately show ?thesis by (simp add: add.commute)
  qed
  also have "(2::rat) powi (e + 1) < 2 powi 1024"
    using assms(5) by (intro power_int_strict_increasing) simp_all
  finally have small: "\<not> 2 powi 1024 \<le> of_int (roundHalfEven (x / ?u)) * ?u" by simp
  have m: "max (e - 52) (- 1074) = e - 52" using assms(4) by simp
  show ?thesis
    using assms(1) small by (simp add: roundToDouble_def e m Let_def)
qed

lemma roundToDouble_error:
  assumes "0 < x" and "2 powi (- 1022) \<le> x" and "x < 2 powi 1023"
  shows "\<exists>r. roundToDouble x = Num r \<and> \<bar>r - x\<bar> \<le> x / 2 ^ 53"
proof -
  define e where "e = log2floor x"
  from log2floor_bounds[OF assms(1)]
  have lo: "2 powi e \<le> x" and hi: "x < 2 powi (e + 1)" by (simp_all add: e_def)
  from log2floor_range[OF assms] have r: "- 1022 \<le> e" "e \<le> 1022" by (simp_all add: e_def)
  let ?u = "(2::rat) powi (e - 52)"
  let ?r = "of_int (roundHalfEven (x / ?u)) * ?u"
  have u: "0 < ?u" by simp
  have eq: "roundToDouble x = Num ?r" by (rule roundToDouble_normal[OF assms(1) lo hi r])
  have "?r - x = (of_int (roundHalfEven (x / ?u)) - x / ?u) * ?u"
    using u by (simp add: left_diff_distrib)
  then have "\<bar>?r - x\<bar> = \<bar>of_int (roundHalfEven (x / ?u)) - x / ?u\<bar> * \<bar>?u\<bar>"
    by (simp only: abs_mult)
  also have "\<bar>?u\<bar> = ?u" using u by simp
  also have "\<bar>of_int (roundHalfEven (x / ?u)) - x / ?u\<bar> * ?u \<le> 1 / 2 * ?u"
    using roundHalfEven_error[of "x / ?u"] u by (intro mult_right_mono) simp_all
  also have "1 / 2 * ?u = 2 powi e / 2 ^ 53"
  proof -
    have "(2::rat) powi (e - 52) = 2 powi e / 2 powi 52" by (simp add: power_int_diff)
    then show ?thesis by simp
  qed
  also have "\<dots> \<le> x / 2 ^ 53" using lo by (simp add: divide_right_mono)
  finally show ?thesis using eq by blast
qed

lemma floor_rat_numeral_divide:
  "\<lfloor>(numeral a :: rat) / numeral b\<rfloor> = numeral a div numeral b"
  using floor_divide_of_int_eq[of "numeral a" "numeral b", where ?'a = rat] by simp

lemma roundToDouble_1: "roundToDouble 1 = Num 1"
  using roundToDouble_normal[of 1 0] by (simp add: roundHalfEven_def)

lemma roundToDouble_100: "roundToDouble 100 = Num 100"
  using roundToDouble_normal[of 100 6] by (simp add: roundHalfEven_def)

lemma roundToDouble_third: "roundToDouble (1 / 3) = Num (6004799503160661 / 18014398509481984)"
  using roundToDouble_normal[of "1 / 3" "- 2"]
  by (simp add: roundHalfEven_def Let_def floor_rat_numeral_divide)

text \<open>
  The quotients \<open>k / n\<close> for \<open>n\<close> from 1 to 5 rounded to doubles, and their products with 100
  rounded to doubles.
\<close>

lemma quotient_1_5: "roundToDouble (1 / 5) = Num (3602879701896397 / 18014398509481984)"
  using roundToDouble_normal[of "1 / 5" "- 3"]
  by (simp add: roundHalfEven_def Let_def floor_rat_numeral_divide)

lemma product_1_5: "roundToDouble (90071992547409925 / 4503599627370496) = Num 20"
  using roundToDouble_normal[of "90071992547409925 / 4503599627370496" 4]
  by (simp add: roundHalfEven_def Let_def floor_rat_numeral_divide)

lemma quotient_1_4: "roundToDouble (1 / 4) = Num (1 / 4)"
  using roundToDouble_normal[of "1 / 4" "- 2"]
  by (simp add: roundHalfEven_def Let_def floor_rat_numeral_divide)

lemma product_1_4: "roundToDouble 25 = Num 25"
  using roundToDouble_normal[of "25" 4]
  by (simp add: roundHalfEven_def Let_def floor_rat_numeral_divide)

lemma quotient_1_3: "roundToDouble (1 / 3) = Num (6004799503160661 / 18014398509481984)"
  using roundToDouble_normal[of "1 / 3" "- 2"]
  by (simp add: roundHalfEven_def Let_def floor_rat_numeral_divide)

lemma product_1_3: "roundToDouble (150119987579016525 / 4503599627370496) = Num (2345624805922133 / 70368744177664)"
  using roundToDouble_normal[of "150119987579016525 / 4503599627370496" 5]
  by (simp add: roundHalfEven_def Let_def floor_rat_numeral_divide)

lemma quotient_2_5: "roundToDouble (2 / 5) = Num (3602879701896397 / 9007199254740992)"
  using roundToDouble_normal[of "2 / 5" "- 2"]
  by (simp add: roundHalfEven_def Let_def floor_rat_numeral_divide)

lemma product_2_5: "roundToDouble (90071992547409925 / 2251799813685248) = Num 40"
  using roundToDouble_normal[of "90071992547409925 / 2251799813685248" 5]
  by (simp add: roundHalfEven_def Let_def floor_rat_numeral_divide)

lemma quotient_1_2: "roundToDouble (1 / 2) = Num (1 / 2)"
  using roundToDouble_normal[of "1 / 2" "- 1"]
  by (simp add: roundHalfEven_def Let_def floor_rat_numeral_divide)

lemma product_1_2: "roundToDouble 50 = Num 50"
  using roundToDouble_normal[of "50" 5]
  by (simp add: roundHalfEven_def Let_def floor_rat_numeral_divide)

lemma quotient_3_5: "roundToDouble (3 / 5) = Num (5404319552844595 / 9007199254740992)"
  using roundToDouble_normal[of "3 / 5" "- 1"]
  by (simp add: roundHalfEven_def Let_def floor_rat_numeral_divide)

lemma product_3_5: "roundToDouble (135107988821114875 / 2251799813685248) = Num 60"
  using roundToDouble_normal[of "135107988821114875 / 2251799813685248" 5]
  by (simp add: roundHalfEven_def Let_def floor_rat_numeral_divide)

lemma quotient_2_3: "roundToDouble (2 / 3) = Num (6004799503160661 / 9007199254740992)"
  using roundToDouble_normal[of "2 / 3" "- 1"]
  by (simp add: roundHalfEven_def Let_def floor_rat_numeral_divide)

lemma product_2_3: "roundToDouble (150119987579016525 / 2251799813685248) = Num (2345624805922133 / 35184372088832)"
  using roundToDouble_normal[of "150119987579016525 / 2251799813685248" 6]
  by (simp add: roundHalfEven_def Let_def floor_rat_numeral_divide)

lemma quotient_3_4: "roundToDouble (3 / 4) = Num (3 / 4)"
  using roundToDouble_normal[of "3 / 4" "- 1"]
  by (simp add: roundHalfEven_def Let_def floor_rat_numeral_divide)

lemma product_3_4: "roundToDouble 75 = Num 75"
  using roundToDouble_normal[of "75" 6]
  by (simp add: roundHalfEven_def Let_def floor_rat_numeral_divide)

lemma quotient_4_5: "roundToDouble (4 / 5) = Num (3602879701896397 / 4503599627370496)"
  using roundToDouble_normal[of "4 / 5" "- 1"]
  by (simp add: roundHalfEven_def Let_def floor_rat_numeral_divide)

lemma product_4_5: "roundToDouble (90071992547409925 / 1125899906842624) = Num 80"
  using roundToDouble_normal[of "90071992547409925 / 1125899906842624" 6]
  by (simp add: roundHalfEven_def Let_def floor_rat_numeral_divide)

lemma quotient_1_1: "roundToDouble 1 = Num 1"
  using roundToDouble_normal[of "1" 0]
  by (simp add: roundHalfEven_def Let_def floor_rat_numeral_divide)

lemma product_1_1: "roundToDouble 100 = Num 100"
  using roundToDouble_normal[of "100" 6]
  by (simp add: roundHalfEven_def Let_def floor_rat_numeral_divide)

lemmas percent_evals = quotient_1_5 product_1_5 quotient_1_4 product_1_4 quotient_1_3 product_1_3 quotient_2_5 product_2_5 quotient_1_2 product_1_2 quotient_3_5 product_3_5 quotient_2_3 product_2_3 quotient_3_4 product_3_4 quotient_4_5 product_4_5 quotient_1_1 product_1_1

lemma percentDone_1: "map (\<lambda>k. percentDone k 1) [1] = [Num 100]"
  by (simp add: percentDone_def percent_evals)

lemma percentDone_2: "map (\<lambda>k. percentDone k 2) [1, 2] = [Num 50, Num 100]"
  by (simp add: percentDone_def percent_evals)

lemma percentDone_3: "map (\<lambda>k. percentDone k 3) [1, 2, 3] = [Num (2345624805922133 / 70368744177664), Num (2345624805922133 / 35184372088832), Num 100]"
  by (simp add: percentDone_def percent_evals)

lemma percentDone_4: "map (\<lambda>k. percentDone k 4) [1, 2, 3, 4] = [Num 25, Num 50, Num 75, Num 100]"
  by (simp add: percentDone_def percent_evals)

lemma percentDone_5: "map (\<lambda>k. percentDone k 5) [1, 2, 3, 4, 5] = [Num 20, Num 40, Num 60, Num 80, Num 100]"
  by (simp add: percentDone_def percent_evals)

text \<open>
  The value set after the last page is 100; for the page counts 1, 2, 4 and 5 every value
  is the exact percentage; in general the two roundings leave a relative error of at most
  \<open>3 / 2\<^sup>5\<^sup>3\<close>.
\<close>

lemma percentDone_full: "0 < n \<Longrightarrow> percentDone n n = Num 100"
  by (simp add: percentDone_def quotient_1_1 product_1_1)

lemma percentDone_error:
  assumes "1 \<le> k" and "k \<le> n" and "n \<le> 2 ^ 53"
  shows "\<exists>v. percentDone k n = Num v
           \<and> \<bar>v - (of_nat k / of_nat n) * 100\<bar> \<le> (of_nat k / of_nat n) * 100 * (3 / 2 ^ 53)"
proof -
  let ?x = "of_nat k / of_nat n :: rat"
  have n: "0 < n" using assms by simp
  have xpos: "0 < ?x" using assms by simp
  have xle: "?x \<le> 1" using assms by simp
  have "(1::rat) / 2 ^ 53 \<le> 1 / of_nat n"
  proof -
    have "(of_nat n :: rat) \<le> of_nat (2 ^ 53)" using assms(3) by (simp only: of_nat_le_iff)
    then have "(of_nat n :: rat) \<le> 2 ^ 53" by simp
    with n show ?thesis by (simp add: frac_le)
  qed
  also have "1 / of_nat n \<le> ?x"
    using assms(1) n by (simp add: divide_right_mono)
  finally have xlo: "1 / 2 ^ 53 \<le> ?x" .
  have lo1: "2 powi (- 1022) \<le> ?x"
  proof -
    have a: "(2::rat) powi (- 1022) \<le> 2 powi (- 53)"
      by (intro power_int_increasing) simp_all
    have b: "(2::rat) powi (- 53) = 1 / 2 ^ 53" by (simp add: power_int_minus_divide)
    from a[unfolded b] xlo show ?thesis by (rule order_trans)
  qed
  have one: "(1::rat) < 2 powi 1023"
    by (rule one_less_power_int) simp_all
  have hi1: "?x < 2 powi 1023" by (rule le_less_trans[OF xle one])
  from roundToDouble_error[OF xpos lo1 hi1]
  obtain v1 where v1: "roundToDouble ?x = Num v1" and e1: "\<bar>v1 - ?x\<bar> \<le> ?x / 2 ^ 53"
    by blast
  let ?y = "v1 * 100"
  have v1lo: "?x - ?x / 2 ^ 53 \<le> v1" and v1hi: "v1 \<le> ?x + ?x / 2 ^ 53"
    using e1 by (simp_all add: abs_le_iff)
  have ypos: "0 < ?y" using v1lo xpos by simp
  have ylo: "?x \<le> ?y" using v1lo xpos by simp
  have yhi: "?y \<le> 200" using v1hi xle xpos by simp
  have lo2: "2 powi (- 1022) \<le> ?y" by (rule order_trans[OF lo1 ylo])
  have "?y < 2 powi 8" using yhi by simp
  moreover have "(2::rat) powi 8 < 2 powi 1023"
    by (intro power_int_strict_increasing) simp_all
  ultimately have hi2: "?y < 2 powi 1023" by (rule less_trans)
  from roundToDouble_error[OF ypos lo2 hi2]
  obtain v where v: "roundToDouble ?y = Num v" and e2: "\<bar>v - ?y\<bar> \<le> ?y / 2 ^ 53"
    by blast
  have "percentDone k n = Num v"
    using n by (simp add: percentDone_def v1 v)
  moreover have "\<bar>v - ?x * 100\<bar> \<le> ?x * 100 * (3 / 2 ^ 53)"
  proof -
    define x :: rat where "x = of_nat k / of_nat n"
    have p: "(2::rat) ^ 53 = 9007199254740992" by simp
    have "\<bar>v1 - x\<bar> \<le> x / 9007199254740992"
      and "\<bar>v - v1 * 100\<bar> \<le> v1 * 100 / 9007199254740992"
      and "0 < x"
      using e1 e2 xpos unfolding x_def p by blast+
    then have "\<bar>v - x * 100\<bar> \<le> x * 100 * (3 / 9007199254740992)"
      by linarith
    then show ?thesis unfolding x_def p .
  qed
  ultimately show ?thesis by blast
qed

lemma percentDone_exact:
  assumes "n \<in> {1, 2, 4, 5}" and "1 \<le> k" and "k \<le> n"
  shows "percentDone k n = Num ((of_nat k / of_nat n) * 100)"
proof -
  from assms have
    "(n = 1 \<and> k = 1) \<or> (n = 2 \<and> (k = 1 \<or> k = 2))
     \<or> (n = 4 \<and> (k = 1 \<or> k = 2 \<or> k = 3 \<or> k = 4))
     \<or> (n = 5 \<and> (k = 1 \<or> k = 2 \<or> k = 3 \<or> k = 4 \<or> k = 5))"
    by auto
  then show ?thesis
    by (auto simp: percentDone_def percent_evals)
qed

text \<open>Auxiliary facts on index shifts and the page snapshots.\<close>

lemma map_shift: "map (\<lambda>k. f (Suc k)) [0..<m] = map f [1..<Suc m]"
proof -
  have "map f [1..<Suc m] = map f (map Suc [0..<m])"
    by (simp only: map_Suc_upt One_nat_def)
  then show ?thesis by (simp add: comp_def)
qed

lemma snapshots:
  "map (\<lambda>k. map f [0..<Suc k]) [0..<m] = map (\<lambda>k. take k (map f [0..<m])) [1..<Suc m]"
proof -
  have "map (\<lambda>k. take k (map f [0..<m])) [1..<Suc m] = map (\<lambda>k. map f [0..<k]) [1..<Suc m]"
    by (rule map_cong) (auto simp: take_map)
  also have "\<dots> = map (\<lambda>k. map f [0..<Suc k]) [0..<m]"
    by (rule map_shift[symmetric])
  finally show ?thesis by simp
qed

text \<open>
  As stated, claim C5 says that the progress value set after page \<open>k\<close> of \<open>n\<close> is exactly
  \<open>(k / n) * 100\<close>. The handler computes it with the numbers of JavaScript, which are
  doubles: with three pages the values set after the first and the second page are the
  doubles printed as \<^verbatim>\<open>33.33333333333333\<close> and \<^verbatim>\<open>66.66666666666666\<close>, neither of which is
  \<open>100 / 3\<close> or \<open>200 / 3\<close>.
\<close>

theorem progress_inexact_at_three:
  "progressUpdates (trace (handleGenerate aiAllOk exampleWorld))
     = [Num 0, Num (2345624805922133 / 70368744177664),
        Num (2345624805922133 / 35184372088832), Num 100]
   \<and> (2345624805922133 / 70368744177664 :: rat) \<noteq> (1 / 3) * 100
   \<and> (2345624805922133 / 35184372088832 :: rat) \<noteq> (2 / 3) * 100"
proof -
  have a: "childName exampleWorld \<noteq> []" and b: "theme exampleWorld \<noteq> []"
    and c: "3 \<le> pageCount exampleWorld"
    by (simp_all add: exampleWorld_def)
  have d: "\<forall>k<3. succeedsAt aiAllOk (theme exampleWorld) k"
    by (simp add: aiAllOk_succeeds)
  have e: "3 < pageCount exampleWorld \<longrightarrow> \<not> succeedsAt aiAllOk (theme exampleWorld) 3"
    by (simp add: exampleWorld_def)
  note run = handleGenerate_run[OF a b c d e]
  have u: "[0..<3] = [0, 1, 2::nat]" by (simp add: upt_rec)
  have s2: "Suc (Suc 0) = 2" by simp
  have n: "pageCount exampleWorld = 3" "trace exampleWorld = []"
    by (simp_all add: exampleWorld_def)
  have "progressUpdates (trace (handleGenerate aiAllOk exampleWorld))
     = Num 0 # map (\<lambda>k. percentDone k 3) [1, 2, 3]"
    by (subst run)
       (simp add: n u s2 pageEvents_def progressUpdates_append progressUpdates_simps)
  then have "progressUpdates (trace (handleGenerate aiAllOk exampleWorld))
     = [Num 0, Num (2345624805922133 / 70368744177664),
        Num (2345624805922133 / 35184372088832), Num 100]"
    by (simp only: percentDone_3)
  then show ?thesis by simp
qed

text \<open>
  Claim C5, amended. In a run with \<open>n = pageCount > 0\<close> pages of which \<open>m\<close> are obtained (all
  of them, or those before the first failure), the progress values set are the reset \<open>0\<close>
  followed, for \<open>k = 1..m\<close> in this order and once per obtained page, by the value of
  \<open>(k / n) * 100\<close> in double arithmetic: the quotient rounded to a double, then its product
  with 100 rounded to a double. The \<open>k\<close>-th page list set holds the first \<open>k\<close> pages. The
  value for page \<open>k\<close> is within the relative error \<open>3 / 2\<^sup>5\<^sup>3\<close> of the exact percentage
  (for \<open>n\<close> up to \<open>2\<^sup>5\<^sup>3\<close>), and it is the exact percentage when \<open>n\<close> is 1, 2, 4 or 5. When
  all \<open>n\<close> pages are obtained, the last value set, and the final progress, is \<open>100\<close>.
\<close>

theorem progress_reports:
  assumes "childName w \<noteq> []" and "theme w \<noteq> []"
    and "0 < pageCount w" and "m \<le> pageCount w"
    and "\<forall>k<m. succeedsAt ai (theme w) k"
    and "m < pageCount w \<longrightarrow> \<not> succeedsAt ai (theme w) m"
  shows "progressUpdates (trace (handleGenerate ai w))
           = progressUpdates (trace w)
             @ Num 0 # map (\<lambda>k. percentDone k (pageCount w)) [1..<Suc m]
       \<and> length (pages (handleGenerate ai w)) = m
       \<and> pagesUpdates (trace (handleGenerate ai w))
           = pagesUpdates (trace w)
             @ [] # map (\<lambda>k. take k (pages (handleGenerate ai w))) [1..<Suc m]
       \<and> (\<forall>k. 1 \<le> k \<and> k \<le> m \<and> pageCount w \<le> 2 ^ 53 \<longrightarrow>
            (\<exists>v. percentDone k (pageCount w) = Num v
               \<and> \<bar>v - (of_nat k / of_nat (pageCount w)) * 100\<bar>
                   \<le> (of_nat k / of_nat (pageCount w)) * 100 * (3 / 2 ^ 53)))
       \<and> (pageCount w \<in> {1, 2, 4, 5} \<longrightarrow>
            (\<forall>k. 1 \<le> k \<and> k \<le> m \<longrightarrow>
               percentDone k (pageCount w) = Num ((of_nat k / of_nat (pageCount w)) * 100)))
       \<and> (m = pageCount w \<longrightarrow>
            progress (handleGenerate ai w) = Num 100
            \<and> last (progressUpdates (trace (handleGenerate ai w))) = Num 100)"
proof -
  let ?n = "pageCount w"
  let ?g = "\<lambda>k. percentDone k ?n"
  note run = handleGenerate_run[OF assms(1,2,4,5,6)]
  have shift: "map (\<lambda>k. ?g (Suc k)) [0..<m] = map ?g [1..<Suc m]"
    by (rule map_shift)
  have "progressUpdates (trace (handleGenerate ai w))
           = progressUpdates (trace w) @ Num 0 # map (\<lambda>k. ?g (Suc k)) [0..<m]"
    by (simp add: run progressUpdates_append progressUpdates_pageEvents progressUpdates_simps
        failureEvents_def del: upt_Suc)
  then have upd: "progressUpdates (trace (handleGenerate ai w))
           = progressUpdates (trace w) @ Num 0 # map ?g [1..<Suc m]"
    by (simp only: shift)
  have len: "length (pages (handleGenerate ai w)) = m"
    by (simp add: run)
  have snap: "pagesUpdates (trace (handleGenerate ai w))
           = pagesUpdates (trace w)
             @ [] # map (\<lambda>k. take k (pages (handleGenerate ai w))) [1..<Suc m]"
    apply (subst (2) run)
    apply (simp add: run pagesUpdates_append pagesUpdates_pageEvents pagesUpdates_simps
        failureEvents_def snapshots del: upt_Suc)
    done
  have err: "\<forall>k. 1 \<le> k \<and> k \<le> m \<and> ?n \<le> 2 ^ 53 \<longrightarrow>
            (\<exists>v. percentDone k ?n = Num v
               \<and> \<bar>v - (of_nat k / of_nat ?n) * 100\<bar>
                   \<le> (of_nat k / of_nat ?n) * 100 * (3 / 2 ^ 53))"
  proof (intro allI impI)
    fix k
    assume h: "1 \<le> k \<and> k \<le> m \<and> ?n \<le> 2 ^ 53"
    then have "k \<le> ?n" using assms(4) by simp
    with h show "\<exists>v. percentDone k ?n = Num v
               \<and> \<bar>v - (of_nat k / of_nat ?n) * 100\<bar>
                   \<le> (of_nat k / of_nat ?n) * 100 * (3 / 2 ^ 53)"
      by (intro percentDone_error) simp_all
  qed
  have exact: "?n \<in> {1, 2, 4, 5} \<longrightarrow>
            (\<forall>k. 1 \<le> k \<and> k \<le> m \<longrightarrow> percentDone k ?n = Num ((of_nat k / of_nat ?n) * 100))"
  proof (intro allI impI)
    fix k
    assume n: "?n \<in> {1, 2, 4, 5}" and h: "1 \<le> k \<and> k \<le> m"
    then have "k \<le> ?n" using assms(4) by simp
    with n h show "percentDone k ?n = Num ((of_nat k / of_nat ?n) * 100)"
      by (intro percentDone_exact) simp_all
  qed
  have full: "m = ?n \<longrightarrow> progress (handleGenerate ai w) = Num 100
            \<and> last (progressUpdates (trace (handleGenerate ai w))) = Num 100"
  proof
    assume mn: "m = ?n"
    then have m: "0 < m" using assms(3) by simp
    have "last (Num 0 # map ?g [1..<Suc m]) = ?g m"
      using m by (simp add: last_map)
    then have l: "last (progressUpdates (trace (handleGenerate ai w))) = ?g m"
      by (simp add: upd del: upt_Suc)
    have p: "progress (handleGenerate ai w) = ?g m"
      using m by (simp add: run)
    have "?g m = Num 100" using mn assms(3) by (simp add: percentDone_full)
    with l p show "progress (handleGenerate ai w) = Num 100
            \<and> last (progressUpdates (trace (handleGenerate ai w))) = Num 100"
      by simp
  qed
  from upd len snap err exact full show ?thesis by blast
qed

theorem progress_reports_witness:
  "progressUpdates (trace (handleGenerate aiAllOk (exampleWorld\<lparr>pageCount := 4\<rparr>)))
     = [Num 0, Num 25, Num 50, Num 75, Num 100]
   \<and> progress (handleGenerate aiAllOk (exampleWorld\<lparr>pageCount := 4\<rparr>)) = Num 100
   \<and> length (pages (handleGenerate aiAllOk (exampleWorld\<lparr>pageCount := 4\<rparr>))) = 4"
proof -
  let ?w = "exampleWorld\<lparr>pageCount := 4\<rparr>"
  have a: "childName ?w \<noteq> []" and b: "theme ?w \<noteq> []"
    and c: "0 < pageCount ?w" and d: "4 \<le> pageCount ?w"
    by (simp_all add: exampleWorld_def)
  have e: "\<forall>k<4. succeedsAt aiAllOk (theme ?w) k"
    by (simp add: aiAllOk_succeeds)
  have f: "4 < pageCount ?w \<longrightarrow> \<not> succeedsAt aiAllOk (theme ?w) 4"
    by simp
  note t = progress_reports[OF a b c d e f]
  have n: "pageCount ?w = 4" "progressUpdates (trace ?w) = []"
    by (simp_all add: exampleWorld_def progressUpdates_def)
  have u: "[1..<Suc 4] = [1, 2, 3, 4::nat]" by (simp add: upt_rec)
  from t have "progressUpdates (trace (handleGenerate aiAllOk ?w))
     = progressUpdates (trace ?w) @ Num 0 # map (\<lambda>k. percentDone k (pageCount ?w)) [1..<Suc 4]"
    by blast
  then have "progressUpdates (trace (handleGenerate aiAllOk ?w))
     = Num 0 # map (\<lambda>k. percentDone k 4) [1, 2, 3, 4]"
    by (simp only: n u append_Nil)
  then have p: "progressUpdates (trace (handleGenerate aiAllOk ?w))
     = [Num 0, Num 25, Num 50, Num 75, Num 100]"
    by (simp only: percentDone_4)
  from t n have q: "progress (handleGenerate aiAllOk ?w) = Num 100" by simp
  from t have r: "length (pages (handleGenerate aiAllOk ?w)) = 4" by blast
  from p q r show ?thesis by blast
qed

section \<open>Claims about a single request\<close>

lemma spec_variation_nth:
  "variations t ! (i mod length (variations t)) = spec_variation (i mod 5) t"
proof -
  have len: "length (variations t) = 5" by (simp add: variations_def)
  have "i mod 5 < 5" by simp
  then consider "i mod 5 = 0" | "i mod 5 = 1" | "i mod 5 = 2" | "i mod 5 = 3" | "i mod 5 = 4"
    by linarith
  then show ?thesis
    unfolding len
    by cases (simp_all add: variations_def spec_variation_def)
qed

text \<open>
  Claim C2. For every page index \<open>i\<close> and theme, the request sent carries the fixed outer
  template (black and white, simple line art, thick black outlines, no shading, no
  gradients, white background, high contrast, easy to color) around the variation
  template number \<open>i mod 5\<close> of the specification, the theme inserted as it is; the prompt
  for index 5 is that for index 0, and in general that for \<open>i + 5\<close> is that for \<open>i\<close>.
\<close>

theorem prompt_for_page:
  "requests (trace (snd (generateSinglePage svc i t w)))
     = requests (trace w)
       @ [\<lparr>req_model = ''gemini-2.5-flash-image'',
           req_text = ''Black and white coloring book page for children. Simple line art, thick black outlines, no shading, no gradients, white background. Subject: ''
                      @ spec_variation (i mod 5) t
                      @ ''. High contrast, easy to color.'',
           req_aspectRatio = ''1:1''\<rparr>]
   \<and> buildPrompt i t
       = ''Black and white coloring book page for children. Simple line art, thick black outlines, no shading, no gradients, white background. Subject: ''
         @ spec_variation (i mod 5) t
         @ ''. High contrast, easy to color.''
   \<and> buildPrompt 5 t = buildPrompt 0 t
   \<and> buildPrompt (i + 5) t = buildPrompt i t"
proof -
  have p: "buildPrompt i t
       = ''Black and white coloring book page for children. Simple line art, thick black outlines, no shading, no gradients, white background. Subject: ''
         @ spec_variation (i mod 5) t
         @ ''. High contrast, easy to color.''"
    unfolding buildPrompt_def by (simp only: spec_variation_nth)
  have q: "requests (trace (snd (generateSinglePage svc i t w)))
     = requests (trace w) @ [\<lparr>req_model = MODEL_NAME, req_text = buildPrompt i t, req_aspectRatio = ''1:1''\<rparr>]"
    by (simp add: generateSinglePage_def Let_def emit_def requests_append requests_simps
        split: sum.splits)
  have r: "buildPrompt 5 t = buildPrompt 0 t" "buildPrompt (i + 5) t = buildPrompt i t"
    by (simp_all add: buildPrompt_def variations_def)
  show ?thesis
    unfolding q r using p by (simp add: MODEL_NAME_def)
qed

theorem prompt_for_page_witness:
  "buildPrompt 0 ''Dinosaurs''
     = ''Black and white coloring book page for children. Simple line art, thick black outlines, no shading, no gradients, white background. Subject: A main character Dinosaurs coloring page. High contrast, easy to color.''
   \<and> buildPrompt 5 ''Dinosaurs'' = buildPrompt 0 ''Dinosaurs''
   \<and> buildPrompt 7 ''Dinosaurs''
     = ''Black and white coloring book page for children. Simple line art, thick black outlines, no shading, no gradients, white background. Subject: An action scene with Dinosaurs coloring page. High contrast, easy to color.''"
proof -
  have m: "(0::nat) mod 5 = 0" "(7::nat) mod 5 = 2" by simp_all
  note a = prompt_for_page[where svc = "\<lambda>_. Inl (ApiError [])" and i = 0 and t = "''Dinosaurs''"
      and w = exampleWorld]
  note b = prompt_for_page[where svc = "\<lambda>_. Inl (ApiError [])" and i = 7 and t = "''Dinosaurs''"
      and w = exampleWorld]
  have a': "buildPrompt 0 ''Dinosaurs''
     = ''Black and white coloring book page for children. Simple line art, thick black outlines, no shading, no gradients, white background. Subject: A main character Dinosaurs coloring page. High contrast, easy to color.''"
    using a unfolding m by (simp add: spec_variation_def)
  have b': "buildPrompt 7 ''Dinosaurs''
     = ''Black and white coloring book page for children. Simple line art, thick black outlines, no shading, no gradients, white background. Subject: An action scene with Dinosaurs coloring page. High contrast, easy to color.''"
    using b unfolding m by (simp add: spec_variation_def)
  from a have c: "buildPrompt 5 ''Dinosaurs'' = buildPrompt 0 ''Dinosaurs''" by blast
  from a' b' c show ?thesis by blast
qed

lemma extractImage_first:
  assumes "\<forall>q\<in>set pre. inlineData q = None" and "inlineData p = Some blob"
  shows "extractImage (pre @ p # post) = ''data:image/png;base64,'' @ interpolate (data blob)"
  using assms by (induction pre) simp_all

text \<open>
  Claim C6. When the service answers, the page is built from the first part that has
  inline data, whatever parts follow it; when no part has inline data the request fails
  with the error \<^verbatim>\<open>No image data received from AI\<close>.
\<close>

theorem first_image_extracted:
  assumes "svc (pageRequest i t) = Inr r"
  shows "(\<forall>pre p blob post.
            responseParts r = pre @ p # post
            \<and> (\<forall>q\<in>set pre. inlineData q = None) \<and> inlineData p = Some blob
            \<longrightarrow> fst (generateSinglePage svc i t w)
                  = Inr \<lparr>id' = i,
                         base64 = ''data:image/png;base64,'' @ interpolate (data blob),
                         prompt = buildPrompt i t\<rparr>)
       \<and> ((\<forall>q\<in>set (responseParts r). inlineData q = None)
            \<longrightarrow> fst (generateSinglePage svc i t w)
                  = Inl (Error ''No image data received from AI''))"
proof (intro conjI allI impI)
  fix pre p blob post
  assume h: "responseParts r = pre @ p # post
            \<and> (\<forall>q\<in>set pre. inlineData q = None) \<and> inlineData p = Some blob"
  then have "extractImage (responseParts r) = ''data:image/png;base64,'' @ interpolate (data blob)"
    by (simp add: extractImage_first)
  with assms show "fst (generateSinglePage svc i t w)
                  = Inr \<lparr>id' = i,
                         base64 = ''data:image/png;base64,'' @ interpolate (data blob),
                         prompt = buildPrompt i t\<rparr>"
    by (simp add: generateSinglePage_def pageRequest_def Let_def)
next
  assume "\<forall>q\<in>set (responseParts r). inlineData q = None"
  then have "extractImage (responseParts r) = []"
    by (simp add: extractImage_empty)
  with assms show "fst (generateSinglePage svc i t w) = Inl (Error ''No image data received from AI'')"
    by (simp add: generateSinglePage_def pageRequest_def Let_def)
qed

theorem first_image_extracted_witness:
  "fst (generateSinglePage
          (\<lambda>request. Inr (responseWith [textPart ''Here'', imagePart ''AAAA'', imagePart ''BBBB'']))
          2 ''Frozen'' exampleWorld)
     = Inr \<lparr>id' = 2, base64 = ''data:image/png;base64,AAAA'', prompt = buildPrompt 2 ''Frozen''\<rparr>
   \<and> fst (generateSinglePage (\<lambda>request. Inr (responseWith [textPart ''Sorry'']))
          2 ''Frozen'' exampleWorld)
     = Inl (Error ''No image data received from AI'')"
proof -
  let ?r1 = "responseWith [textPart ''Here'', imagePart ''AAAA'', imagePart ''BBBB'']"
  let ?r2 = "responseWith [textPart ''Sorry'']"
  have p1: "responseParts ?r1 = [textPart ''Here''] @ imagePart ''AAAA'' # [imagePart ''BBBB'']
            \<and> (\<forall>q\<in>set [textPart ''Here'']. inlineData q = None)
            \<and> inlineData (imagePart ''AAAA'') = Some \<lparr>mimeType = Some ''image/png'', data = Some ''AAAA''\<rparr>"
    by (simp add: responseParts_def responseWith_def textPart_def imagePart_def)
  have p2: "\<forall>q\<in>set (responseParts ?r2). inlineData q = None"
    by (simp add: responseParts_def responseWith_def textPart_def)
  from first_image_extracted[where svc = "\<lambda>request. Inr ?r1" and i = 2 and t = "''Frozen''"
      and r = ?r1 and w = exampleWorld] p1
  have "fst (generateSinglePage (\<lambda>request. Inr ?r1) 2 ''Frozen'' exampleWorld)
     = Inr \<lparr>id' = 2, base64 = ''data:image/png;base64,'' @ interpolate (data \<lparr>mimeType = Some ''image/png'', data = Some ''AAAA''\<rparr>), prompt = buildPrompt 2 ''Frozen''\<rparr>"
    by blast
  moreover from first_image_extracted[where svc = "\<lambda>request. Inr ?r2" and i = 2 and t = "''Frozen''"
      and r = ?r2 and w = exampleWorld] p2
  have "fst (generateSinglePage (\<lambda>request. Inr ?r2) 2 ''Frozen'' exampleWorld)
     = Inl (Error ''No image data received from AI'')"
    by blast
  ultimately show ?thesis by (simp add: interpolate_def)
qed

section \<open>Claims about the assembled document\<close>

text \<open>The pages of the document \<open>downloadPDF\<close> builds: the cover, then one page per entry.\<close>

lemma calls_fields:
  "current (calls cs doc) = current doc @ cs"
  "closed (calls cs doc) = closed doc"
  "saved (calls cs doc) = saved doc"
  by (induction cs arbitrary: doc) (simp_all add: calls_def call_def)

lemma docPages_coloringPage:
  "docPages (coloringPage W H nm doc p) = docPages doc @ [coloringPageCalls W H nm p]"
  by (simp add: docPages_def coloringPage_def calls_fields addPage_def)

lemma docPages_coloringPages:
  "docPages (foldl (coloringPage W H nm) doc ps)
     = docPages doc @ map (coloringPageCalls W H nm) ps"
  by (induction ps arbitrary: doc) (simp_all add: docPages_coloringPage)

lemma docPages_downloadPDF:
  "docPages (downloadPDF W H s)
     = coverCalls W H s # map (coloringPageCalls W H (childName s)) (pages s)"
proof -
  have "docPages (downloadPDF W H s)
     = docPages (foldl (coloringPage W H (childName s)) (calls (coverCalls W H s) newJsPDF) (pages s))"
    by (simp add: downloadPDF_def Let_def save_def docPages_def)
  also have "\<dots> = docPages (calls (coverCalls W H s) newJsPDF)
                 @ map (coloringPageCalls W H (childName s)) (pages s)"
    by (rule docPages_coloringPages)
  also have "docPages (calls (coverCalls W H s) newJsPDF) = [coverCalls W H s]"
    by (simp add: docPages_def calls_fields newJsPDF_def)
  finally show ?thesis by simp
qed

lemma imagesOn_cover:
  "imagesOn (coverCalls W H s) = (case pages s of [] \<Rightarrow> [] | p # _ \<Rightarrow> [base64 p])"
  by (simp add: coverCalls_def imagesOn_def split: prod.splits list.splits)

lemma texts_cover:
  "map snd (textsDrawn None (coverCalls W H s))
     = [childName s @ apostrophe @ ''s'', ''Coloring Book'', ''Theme: '' @ theme s,
        ''Generated with AI Magic'']"
  by (simp add: coverCalls_def split: prod.splits list.splits)

lemma imagesOn_page: "imagesOn (coloringPageCalls W H nm p) = [base64 p]"
  by (simp add: coloringPageCalls_def imagesOn_def Let_def)

lemma texts_page: "map snd (textsDrawn None (coloringPageCalls W H nm p)) = [''Page for '' @ nm]"
  by (simp add: coloringPageCalls_def Let_def)

text \<open>
  Claim C7. For every list of pages and every cover style the document has
  \<open>length pages + 1\<close> pages. The first is the cover with its four texts; it carries the
  image of the first entry as preview when there is one and no image otherwise. The pages
  after it carry, in the order of the list and without any sorting, exactly one image
  each, that of the corresponding entry, and the footer text. With no entries the document
  is the cover alone.
\<close>

theorem document_layout:
  "length (docPages (downloadPDF W H s)) = length (pages s) + 1
   \<and> hd (docPages (downloadPDF W H s)) = coverCalls W H s
   \<and> map snd (textsDrawn None (hd (docPages (downloadPDF W H s))))
       = [childName s @ apostrophe @ ''s'', ''Coloring Book'', ''Theme: '' @ theme s,
          ''Generated with AI Magic'']
   \<and> imagesOn (hd (docPages (downloadPDF W H s)))
       = (case pages s of [] \<Rightarrow> [] | p # _ \<Rightarrow> [base64 p])
   \<and> map imagesOn (tl (docPages (downloadPDF W H s))) = map (\<lambda>p. [base64 p]) (pages s)
   \<and> map (\<lambda>cs. map snd (textsDrawn None cs)) (tl (docPages (downloadPDF W H s)))
       = map (\<lambda>p. [''Page for '' @ childName s]) (pages s)
   \<and> (pages s = [] \<longrightarrow>
        docPages (downloadPDF W H s) = [coverCalls W H s]
        \<and> imagesOn (coverCalls W H s) = [])"
  by (simp add: docPages_downloadPDF imagesOn_cover texts_cover imagesOn_page texts_page
      comp_def)

theorem document_layout_witness:
  "length (docPages (downloadPDF 210 297 (exampleWorld\<lparr>pages := examplePages\<rparr>))) = 3
   \<and> imagesOn (hd (docPages (downloadPDF 210 297 (exampleWorld\<lparr>pages := examplePages\<rparr>))))
       = [''data:image/png;base64,AAAA'']
   \<and> map imagesOn (tl (docPages (downloadPDF 210 297 (exampleWorld\<lparr>pages := examplePages\<rparr>))))
       = [[''data:image/png;base64,AAAA''], [''data:image/png;base64,BBBB'']]
   \<and> pages exampleWorld = []
   \<and> docPages (downloadPDF 210 297 exampleWorld) = [coverCalls 210 297 exampleWorld]
   \<and> imagesOn (coverCalls 210 297 exampleWorld) = []"
proof -
  let ?s = "exampleWorld\<lparr>pages := examplePages\<rparr>"
  have p: "pages ?s = examplePages" and e: "pages exampleWorld = []"
    by (simp_all add: exampleWorld_def)
  note a = document_layout[of 210 297 ?s]
  note b = document_layout[of 210 297 exampleWorld]
  from a have "length (docPages (downloadPDF 210 297 ?s)) = length (pages ?s) + 1" by blast
  then have a1: "length (docPages (downloadPDF 210 297 ?s)) = 3"
    by (simp add: p examplePages_def)
  from a have "imagesOn (hd (docPages (downloadPDF 210 297 ?s)))
       = (case pages ?s of [] \<Rightarrow> [] | p # _ \<Rightarrow> [base64 p])" by blast
  then have a2: "imagesOn (hd (docPages (downloadPDF 210 297 ?s))) = [''data:image/png;base64,AAAA'']"
    by (simp add: p examplePages_def)
  from a have "map imagesOn (tl (docPages (downloadPDF 210 297 ?s)))
       = map (\<lambda>p. [base64 p]) (pages ?s)" by blast
  then have a3: "map imagesOn (tl (docPages (downloadPDF 210 297 ?s)))
       = [[''data:image/png;base64,AAAA''], [''data:image/png;base64,BBBB'']]"
    by (simp add: p examplePages_def)
  from b e have b1: "docPages (downloadPDF 210 297 exampleWorld) = [coverCalls 210 297 exampleWorld]
      \<and> imagesOn (coverCalls 210 297 exampleWorld) = []"
    by blast
  from a1 a2 a3 e b1 show ?thesis by blast
qed

text \<open>
  Claim C8. The document is a function of the pages, the recipient name, the theme and the
  background and text colours alone: two states that agree on these (and, as the page
  dimensions the renderer reports are fixed, are given the same dimensions) yield the same
  document, whatever the rest of the state is.
\<close>

theorem assemble_deterministic:
  assumes "pages s = pages s'" and "childName s = childName s'" and "theme s = theme s'"
    and "bgColor s = bgColor s'" and "textColor s = textColor s'"
  shows "downloadPDF W H s = downloadPDF W H s'"
  using assms by (simp add: downloadPDF_def coverCalls_def)

theorem assemble_deterministic_witness:
  "downloadPDF 210 297 (exampleWorld\<lparr>pages := examplePages\<rparr>)
     = downloadPDF 210 297
         (exampleWorld\<lparr>pages := examplePages, progress := Num 100, isGenerating := True,
            accentColor := ''#000000'', error := Some oopsMessage\<rparr>)"
  by (rule assemble_deterministic) simp_all

text \<open>Reading a well-formed colour string.\<close>

lemma hexDigitValue_range: "hexDigitValue c = Some d \<Longrightarrow> d < 16"
  by (auto simp: hexDigitValue_def Let_def split: if_splits)

lemma hexDigit_plain:
  assumes "hexDigitValue c = Some d"
  shows "\<not> isWhiteSpace c" "c \<noteq> CHR ''-''" "c \<noteq> CHR ''+''" "c \<noteq> CHR ''x''" "c \<noteq> CHR ''X''"
  using assms by (auto simp: hexDigitValue_def isWhiteSpace_def Let_def split: if_splits)

lemma parseInt16_pair:
  assumes "hexDigitValue a = Some x" and "hexDigitValue b = Some y"
  shows "parseInt16 [a, b] = Some (int (16 * x + y))"
  using assms hexDigit_plain[OF assms(1)] hexDigit_plain[OF assms(2)]
  by (simp add: parseInt16_def stripSign_def stripPrefix_def)

lemma hexToRgb_wellformed:
  assumes "map hexDigitValue [r1, r2, g1, g2, b1, b2] = map Some [x1, x2, x3, x4, x5, x6]"
  shows "hexToRgb [c, r1, r2, g1, g2, b1, b2]
           = (Some (int (16 * x1 + x2)), Some (int (16 * x3 + x4)), Some (int (16 * x5 + x6)))"
  using assms by (simp add: hexToRgb_def slice_def parseInt16_pair)

lemma fills_cover:
  "filledRects None (coverCalls W H s) = [(Some (hexToRgb (bgColor s)), 0, 0, W, H)]"
  by (simp add: coverCalls_def split: prod.splits list.splits)

lemma title_texts_cover:
  "take 2 (textsDrawn None (coverCalls W H s))
     = [(Some (hexToRgb (textColor s), None), childName s @ apostrophe @ ''s''),
        (Some (hexToRgb (textColor s), None), ''Coloring Book'')]"
  by (simp add: coverCalls_def split: prod.splits list.splits)

text \<open>
  Claim C10. For a colour string \<open>#rrggbb\<close> of hexadecimal digits, \<open>hexToRgb\<close> returns the
  three components, each the value \<open>16 * high + low\<close> of its digit pair and so between 0 and
  255; on the cover, the background rectangle is filled in the components of \<open>bgColor\<close>,
  and the two title texts are drawn in the components of \<open>textColor\<close> (set with three
  arguments).
\<close>

theorem cover_colors:
  assumes "bgColor s = [CHR ''#'', r1, r2, g1, g2, b1, b2]"
    and "map hexDigitValue [r1, r2, g1, g2, b1, b2] = map Some [x1, x2, x3, x4, x5, x6]"
    and "textColor s = [CHR ''#'', q1, q2, h1, h2, c1, c2]"
    and "map hexDigitValue [q1, q2, h1, h2, c1, c2] = map Some [y1, y2, y3, y4, y5, y6]"
  shows "hexToRgb (bgColor s)
           = (Some (int (16 * x1 + x2)), Some (int (16 * x3 + x4)), Some (int (16 * x5 + x6)))
       \<and> hexToRgb (textColor s)
           = (Some (int (16 * y1 + y2)), Some (int (16 * y3 + y4)), Some (int (16 * y5 + y6)))
       \<and> 16 * x1 + x2 \<le> 255 \<and> 16 * x3 + x4 \<le> 255 \<and> 16 * x5 + x6 \<le> 255
       \<and> 16 * y1 + y2 \<le> 255 \<and> 16 * y3 + y4 \<le> 255 \<and> 16 * y5 + y6 \<le> 255
       \<and> filledRects None (hd (docPages (downloadPDF W H s)))
           = [(Some (Some (int (16 * x1 + x2)), Some (int (16 * x3 + x4)), Some (int (16 * x5 + x6))),
               0, 0, W, H)]
       \<and> take 2 (textsDrawn None (hd (docPages (downloadPDF W H s))))
           = [(Some ((Some (int (16 * y1 + y2)), Some (int (16 * y3 + y4)), Some (int (16 * y5 + y6))),
                     None),
               childName s @ apostrophe @ ''s''),
              (Some ((Some (int (16 * y1 + y2)), Some (int (16 * y3 + y4)), Some (int (16 * y5 + y6))),
                     None),
               ''Coloring Book'')]"
proof -
  have bg: "hexToRgb (bgColor s)
           = (Some (int (16 * x1 + x2)), Some (int (16 * x3 + x4)), Some (int (16 * x5 + x6)))"
    unfolding assms(1) by (rule hexToRgb_wellformed[OF assms(2)])
  have tx: "hexToRgb (textColor s)
           = (Some (int (16 * y1 + y2)), Some (int (16 * y3 + y4)), Some (int (16 * y5 + y6)))"
    unfolding assms(3) by (rule hexToRgb_wellformed[OF assms(4)])
  have "x1 < 16" "x2 < 16" "x3 < 16" "x4 < 16" "x5 < 16" "x6 < 16"
    using assms(2) by (auto dest: hexDigitValue_range)
  then have bx: "16 * x1 + x2 \<le> 255 \<and> 16 * x3 + x4 \<le> 255 \<and> 16 * x5 + x6 \<le> 255"
    by arith
  have "y1 < 16" "y2 < 16" "y3 < 16" "y4 < 16" "y5 < 16" "y6 < 16"
    using assms(4) by (auto dest: hexDigitValue_range)
  then have "by": "16 * y1 + y2 \<le> 255 \<and> 16 * y3 + y4 \<le> 255 \<and> 16 * y5 + y6 \<le> 255"
    by arith
  have cover: "hd (docPages (downloadPDF W H s)) = coverCalls W H s"
    by (simp add: docPages_downloadPDF)
  have fill: "filledRects None (hd (docPages (downloadPDF W H s)))
           = [(Some (Some (int (16 * x1 + x2)), Some (int (16 * x3 + x4)), Some (int (16 * x5 + x6))),
               0, 0, W, H)]"
    by (simp only: cover fills_cover bg)
  have title: "take 2 (textsDrawn None (hd (docPages (downloadPDF W H s))))
           = [(Some ((Some (int (16 * y1 + y2)), Some (int (16 * y3 + y4)), Some (int (16 * y5 + y6))),
                     None),
               childName s @ apostrophe @ ''s''),
              (Some ((Some (int (16 * y1 + y2)), Some (int (16 * y3 + y4)), Some (int (16 * y5 + y6))),
                     None),
               ''Coloring Book'')]"
    by (simp only: cover title_texts_cover tx)
  from bg tx bx "by" fill title show ?thesis by blast
qed

lemma hexDigitValue_examples:
  "hexDigitValue (CHR ''f'') = Some 15" "hexDigitValue (CHR ''5'') = Some 5"
  "hexDigitValue (CHR ''0'') = Some 0" "hexDigitValue (CHR ''2'') = Some 2"
  "hexDigitValue (CHR ''8'') = Some 8"
  by (simp_all add: hexDigitValue_def)

theorem cover_colors_witness:
  "hexToRgb (bgColor exampleWorld) = (Some 245, Some 245, Some 240)
   \<and> hexToRgb (textColor exampleWorld) = (Some 40, Some 40, Some 40)
   \<and> filledRects None (hd (docPages (downloadPDF 210 297 exampleWorld)))
       = [(Some (Some 245, Some 245, Some 240), 0, 0, 210, 297)]
   \<and> map fst (take 2 (textsDrawn None (hd (docPages (downloadPDF 210 297 exampleWorld)))))
       = [Some ((Some 40, Some 40, Some 40), None), Some ((Some 40, Some 40, Some 40), None)]"
proof -
  have a: "bgColor exampleWorld = [CHR ''#'', CHR ''f'', CHR ''5'', CHR ''f'', CHR ''5'', CHR ''f'', CHR ''0'']"
    and c: "textColor exampleWorld = [CHR ''#'', CHR ''2'', CHR ''8'', CHR ''2'', CHR ''8'', CHR ''2'', CHR ''8'']"
    by (simp_all add: exampleWorld_def)
  have b: "map hexDigitValue [CHR ''f'', CHR ''5'', CHR ''f'', CHR ''5'', CHR ''f'', CHR ''0'']
            = map Some [15, 5, 15, 5, 15, 0]"
    and d: "map hexDigitValue [CHR ''2'', CHR ''8'', CHR ''2'', CHR ''8'', CHR ''2'', CHR ''8'']
            = map Some [2, 8, 2, 8, 2, 8]"
    by (simp_all add: hexDigitValue_examples)
  show ?thesis
    using cover_colors[OF a b c d, of 210 297] by simp
qed

section \<open>What a failed run leaves behind\<close>

text \<open>
  As stated, claim C4 says that after a failed run the pages generated before the failure
  are gone and no document can be assembled from them. The handler does not clear
  \<open>pages\<close> when a request fails, and the download button is rendered whenever \<open>pages\<close> is
  not empty. In the run below the second of three requests fails: the error is set, the
  first page is still in \<open>pages\<close>, the download is offered, and the assembler applied to
  this state yields a document of two pages, cover and page, both carrying the image.
\<close>

theorem partial_pages_survive_failure:
  "error (handleGenerate (aiFailsAt (Suc 0)) exampleWorld) = Some oopsMessage
   \<and> pages (handleGenerate (aiFailsAt (Suc 0)) exampleWorld)
       = [\<lparr>id' = 0, base64 = ''data:image/png;base64,iVBORw0KGgo'',
           prompt = buildPrompt 0 ''Space Dinosaurs''\<rparr>]
   \<and> downloadOffered (handleGenerate (aiFailsAt (Suc 0)) exampleWorld)
   \<and> length (docPages (downloadPDF 210 297 (handleGenerate (aiFailsAt (Suc 0)) exampleWorld))) = 2
   \<and> map imagesOn (docPages (downloadPDF 210 297 (handleGenerate (aiFailsAt (Suc 0)) exampleWorld)))
       = [[''data:image/png;base64,iVBORw0KGgo''], [''data:image/png;base64,iVBORw0KGgo'']]"
proof -
  let ?w = "handleGenerate (aiFailsAt (Suc 0)) exampleWorld"
  have a: "childName exampleWorld \<noteq> []" and b: "theme exampleWorld \<noteq> []"
    and c: "Suc 0 \<le> pageCount exampleWorld"
    by (simp_all add: exampleWorld_def)
  have d: "\<forall>k<Suc 0. succeedsAt (aiFailsAt (Suc 0)) (theme exampleWorld) k"
    by (simp add: aiFailsAt_succeeds)
  have e: "Suc 0 < pageCount exampleWorld \<longrightarrow> \<not> succeedsAt (aiFailsAt (Suc 0)) (theme exampleWorld) (Suc 0)"
    by (simp add: aiFailsAt_succeeds)
  note run = handleGenerate_run[OF a b c d e]
  have pg: "pages ?w
       = [\<lparr>id' = 0, base64 = ''data:image/png;base64,iVBORw0KGgo'',
           prompt = buildPrompt 0 ''Space Dinosaurs''\<rparr>]"
    by (subst run)
       (simp add: exampleWorld_def expectedPage_def aiFailsAt_def aiAllOk_def responseParts_def
        responseWith_def textPart_def imagePart_def interpolate_def)
  have er: "error ?w = Some oopsMessage"
    by (subst run) (simp add: exampleWorld_def)
  have off: "downloadOffered ?w"
    by (simp add: downloadOffered_def pg)
  have len: "length (docPages (downloadPDF 210 297 ?w)) = 2"
    by (simp add: docPages_downloadPDF pg)
  have img: "map imagesOn (docPages (downloadPDF 210 297 ?w))
       = [[''data:image/png;base64,iVBORw0KGgo''], [''data:image/png;base64,iVBORw0KGgo'']]"
    by (simp add: docPages_downloadPDF imagesOn_cover imagesOn_page pg)
  from er pg off len img show ?thesis by blast
qed

text \<open>
  Claim C4, amended. After a run whose request \<open>j\<close> is the first to fail, the error is
  set and \<open>pages\<close> holds exactly the \<open>j\<close> pages obtained before the failure, with the ids
  \<open>0..j-1\<close>. The download is offered exactly when \<open>j > 0\<close>, and the assembler applied to
  the state after the run yields \<open>j + 1\<close> pages: the cover and the pages obtained.
\<close>

theorem failed_run_keeps_pages:
  assumes "childName w \<noteq> []" and "theme w \<noteq> []"
    and "j < pageCount w"
    and "\<forall>k<j. succeedsAt ai (theme w) k"
    and "\<not> succeedsAt ai (theme w) j"
  shows "error (handleGenerate ai w) = Some oopsMessage
       \<and> pages (handleGenerate ai w) = map (expectedPage ai (theme w)) [0..<j]
       \<and> length (pages (handleGenerate ai w)) = j
       \<and> map id' (pages (handleGenerate ai w)) = [0..<j]
       \<and> (downloadOffered (handleGenerate ai w) \<longleftrightarrow> 0 < j)
       \<and> length (docPages (downloadPDF W H (handleGenerate ai w))) = j + 1
       \<and> map imagesOn (tl (docPages (downloadPDF W H (handleGenerate ai w))))
           = map (\<lambda>p. [base64 p]) (pages (handleGenerate ai w))"
proof -
  have f: "j < pageCount w \<longrightarrow> \<not> succeedsAt ai (theme w) j" using assms(5) by simp
  note run = handleGenerate_run[OF assms(1,2) less_imp_le[OF assms(3)] assms(4) f]
  have pg: "pages (handleGenerate ai w) = map (expectedPage ai (theme w)) [0..<j]"
    by (simp add: run)
  have er: "error (handleGenerate ai w) = Some oopsMessage"
    using assms(3) by (simp add: run)
  have ids: "map id' (pages (handleGenerate ai w)) = [0..<j]"
    by (simp add: pg expectedPage_def map_idI)
  have len: "length (pages (handleGenerate ai w)) = j"
    by (simp add: pg)
  have off: "downloadOffered (handleGenerate ai w) \<longleftrightarrow> 0 < j"
    by (simp add: downloadOffered_def len)
  have doc: "length (docPages (downloadPDF W H (handleGenerate ai w))) = j + 1"
    by (simp add: docPages_downloadPDF len)
  have img: "map imagesOn (tl (docPages (downloadPDF W H (handleGenerate ai w))))
           = map (\<lambda>p. [base64 p]) (pages (handleGenerate ai w))"
    by (simp add: docPages_downloadPDF imagesOn_page comp_def)
  from er pg len ids off doc img show ?thesis by blast
qed

theorem failed_run_keeps_pages_witness:
  "\<not> succeedsAt (aiFailsAt 2) (theme exampleWorld) 2
   \<and> error (handleGenerate (aiFailsAt 2) exampleWorld) = Some oopsMessage
   \<and> map id' (pages (handleGenerate (aiFailsAt 2) exampleWorld)) = [0, 1]
   \<and> downloadOffered (handleGenerate (aiFailsAt 2) exampleWorld)
   \<and> length (docPages (downloadPDF 210 297 (handleGenerate (aiFailsAt 2) exampleWorld))) = 3"
proof -
  have a: "childName exampleWorld \<noteq> []" and b: "theme exampleWorld \<noteq> []"
    and c: "2 < pageCount exampleWorld"
    by (simp_all add: exampleWorld_def)
  have d: "\<forall>k<2. succeedsAt (aiFailsAt 2) (theme exampleWorld) k"
    by (simp add: aiFailsAt_succeeds)
  have e: "\<not> succeedsAt (aiFailsAt 2) (theme exampleWorld) 2"
    by (simp add: aiFailsAt_succeeds)
  have u: "[0..<2] = [0, 1::nat]" by (simp add: upt_rec)
  show ?thesis
    using failed_run_keeps_pages[OF a b c d e, of 210 297] e by (simp add: u expectedPage_def)
qed

end
